theory Spec2Isabelle
  imports Complex_Main "HOL-Library.Word"
begin

section \<open>JavaScript values used by the chat page\<close>

subsection \<open>Strings\<close>

text \<open>
  A JavaScript string is a sequence of UTF-16 code units; \<open>length\<close>, \<open>slice\<close> and
  \<open>trim\<close> count and inspect code units. A literal of the source is written \<open>js ''...''\<close>.
\<close>

type_synonym jsstring = "16 word list"

definition js :: "string \<Rightarrow> jsstring" where
  "js s = map of_char s"

text \<open>\<open>s.slice(0, n)\<close>: the first \<open>n\<close> code units, or all of \<open>s\<close> when it is shorter.\<close>

definition slice0 :: "nat \<Rightarrow> jsstring \<Rightarrow> jsstring" where
  "slice0 n s = take n s"

text \<open>
  The code units \<open>String.prototype.trim\<close> strips: ECMAScript's WhiteSpace and
  LineTerminator productions (TAB, LF, VT, FF, CR, SP, NBSP, the Unicode space
  separators, LS, PS and the byte order mark).
\<close>

definition isWhiteSpace :: "16 word \<Rightarrow> bool" where
  "isWhiteSpace c \<longleftrightarrow>
     c = 0x0009 \<or> c = 0x000A \<or> c = 0x000B \<or> c = 0x000C \<or> c = 0x000D \<or>
     c = 0x0020 \<or> c = 0x00A0 \<or> c = 0x1680 \<or> (0x2000 \<le> c \<and> c \<le> 0x200A) \<or>
     c = 0x2028 \<or> c = 0x2029 \<or> c = 0x202F \<or> c = 0x205F \<or> c = 0x3000 \<or>
     c = 0xFEFF"

definition trim :: "jsstring \<Rightarrow> jsstring" where
  "trim s = rev (dropWhile isWhiteSpace (rev (dropWhile isWhiteSpace s)))"

text \<open>\<open>a || b\<close> on strings: the empty string is the only falsy string.\<close>

definition or_else :: "jsstring \<Rightarrow> jsstring \<Rightarrow> jsstring" where
  "or_else a b = (if a \<noteq> [] then a else b)"

subsection \<open>Numbers as text\<close>

definition digit :: "nat \<Rightarrow> 16 word" where
  "digit n = of_nat (48 + n)"

fun digits :: "nat \<Rightarrow> jsstring" where
  "digits n = (if n < 10 then [digit n] else digits (n div 10) @ [digit (n mod 10)])"

declare digits.simps [simp del]

text \<open>
  \<open>Number.prototype.toString()\<close> on an integer below \<open>10^21\<close> in absolute value
  (array lengths and clock readings are): the decimal digits, with a sign when negative.
\<close>

definition Number_toString :: "int \<Rightarrow> jsstring" where
  "Number_toString i = (if i < 0 then 0x2D # digits (nat (- i)) else digits (nat i))"

subsection \<open>Dates\<close>

text \<open>
  A \<open>Date\<close> object holds a time value: milliseconds since 1970-01-01T00:00:00Z, or
  NaN (\<open>None\<close>) for an invalid date. The calendar functions are ECMAScript's
  (Day, TimeWithinDay, DayFromYear, YearFromTime, MonthFromTime, DateFromTime).
\<close>

definition msPerDay :: int where
  "msPerDay = 86400000"

definition Day :: "int \<Rightarrow> int" where
  "Day t = t div msPerDay"

definition TimeWithinDay :: "int \<Rightarrow> int" where
  "TimeWithinDay t = t mod msPerDay"

definition DayFromYear :: "int \<Rightarrow> int" where
  "DayFromYear y =
     365 * (y - 1970) + (y - 1969) div 4 - (y - 1901) div 100 + (y - 1601) div 400"

definition InLeapYear :: "int \<Rightarrow> bool" where
  "InLeapYear y \<longleftrightarrow> y mod 4 = 0 \<and> (y mod 100 \<noteq> 0 \<or> y mod 400 = 0)"

lemma DayFromYear_step: "DayFromYear y < DayFromYear (y + 1)"
proof -
  define A B C A' B' C' where
    "A = (y - 1969) div 4" and "B = (y - 1901) div 100" and "C = (y - 1601) div 400" and
    "A' = (y - 1968) div 4" and "B' = (y - 1900) div 100" and "C' = (y - 1600) div 400"
  have a: "A \<le> A'"
    unfolding A_def A'_def by (rule zdiv_mono1) simp_all
  have "100 * B' \<le> y - 1900"
    unfolding B'_def by linarith
  moreover have "y - 1901 < 100 * B + 100"
    unfolding B_def by linarith
  ultimately have b: "B' \<le> B + 1"
    by linarith
  have c: "C \<le> C'"
    unfolding C_def C'_def by (rule zdiv_mono1) simp_all
  have 1: "DayFromYear y = 365 * y - 719050 + A - B + C"
    by (simp add: DayFromYear_def A_def B_def C_def)
  have 2: "DayFromYear (y + 1) = 365 * y - 718685 + A' - B' + C'"
    by (simp add: DayFromYear_def A'_def B'_def C'_def)
  from a b c show ?thesis
    unfolding 1 2 by linarith
qed

text \<open>
  YearFromTime is the largest year \<open>y\<close> with \<open>DayFromYear y \<le> Day t\<close>: counted up from a
  year that is not after the day.
\<close>

function year_from :: "int \<Rightarrow> int \<Rightarrow> int" where
  "year_from y d = (if DayFromYear (y + 1) \<le> d then year_from (y + 1) d else y)"
  by pat_completeness auto
termination
proof (relation "measure (\<lambda>(y, d). nat (d + 1 - DayFromYear (y + 1)))")
  show "wf (measure (\<lambda>(y, d). nat (d + 1 - DayFromYear (y + 1))))"
    by simp
next
  fix y d :: int
  assume "DayFromYear (y + 1) \<le> d"
  moreover have "DayFromYear (y + 1) < DayFromYear (y + 1 + 1)"
    by (rule DayFromYear_step)
  ultimately show "((y + 1, d), (y, d)) \<in> measure (\<lambda>(y, d). nat (d + 1 - DayFromYear (y + 1)))"
    by simp
qed

declare year_from.simps [simp del]

definition YearFromDay :: "int \<Rightarrow> int" where
  "YearFromDay d = year_from (1970 + (if 0 \<le> d then d div 366 else d div 365)) d"

definition YearFromTime :: "int \<Rightarrow> int" where
  "YearFromTime t = YearFromDay (Day t)"

text \<open>The day of the year on which month \<open>m\<close> (0 to 11) starts.\<close>

definition monthStart :: "bool \<Rightarrow> int \<Rightarrow> int" where
  "monthStart leap m =
     (let l = (if leap then 1 else 0) in
      if m \<le> 0 then 0 else if m = 1 then 31 else if m = 2 then 59 + l
      else if m = 3 then 90 + l else if m = 4 then 120 + l else if m = 5 then 151 + l
      else if m = 6 then 181 + l else if m = 7 then 212 + l else if m = 8 then 243 + l
      else if m = 9 then 273 + l else if m = 10 then 304 + l else 334 + l)"

definition DayWithinYear :: "int \<Rightarrow> int" where
  "DayWithinYear t = Day t - DayFromYear (YearFromTime t)"

definition monthOfDay :: "bool \<Rightarrow> int \<Rightarrow> int" where
  "monthOfDay leap d =
     (if d < monthStart leap 1 then 0 else if d < monthStart leap 2 then 1
      else if d < monthStart leap 3 then 2 else if d < monthStart leap 4 then 3
      else if d < monthStart leap 5 then 4 else if d < monthStart leap 6 then 5
      else if d < monthStart leap 7 then 6 else if d < monthStart leap 8 then 7
      else if d < monthStart leap 9 then 8 else if d < monthStart leap 10 then 9
      else if d < monthStart leap 11 then 10 else 11)"

definition MonthFromTime :: "int \<Rightarrow> int" where
  "MonthFromTime t = monthOfDay (InLeapYear (YearFromTime t)) (DayWithinYear t)"

definition DateFromTime :: "int \<Rightarrow> int" where
  "DateFromTime t =
     DayWithinYear t - monthStart (InLeapYear (YearFromTime t)) (MonthFromTime t) + 1"

definition HourFromTime :: "int \<Rightarrow> int" where
  "HourFromTime t = TimeWithinDay t div 3600000"

definition MinFromTime :: "int \<Rightarrow> int" where
  "MinFromTime t = (TimeWithinDay t div 60000) mod 60"

definition SecFromTime :: "int \<Rightarrow> int" where
  "SecFromTime t = (TimeWithinDay t div 1000) mod 60"

definition msFromTime :: "int \<Rightarrow> int" where
  "msFromTime t = TimeWithinDay t mod 1000"

text \<open>A field of fixed width: the last \<open>w\<close> decimal digits, zeros in front.\<close>

fun zpad :: "nat \<Rightarrow> nat \<Rightarrow> jsstring" where
  "zpad 0 n = []"
| "zpad (Suc w) n = zpad w (n div 10) @ [digit (n mod 10)]"

text \<open>
  \<open>Date.prototype.toISOString\<close>: \<open>YYYY-MM-DDTHH:mm:ss.sssZ\<close>, the year as a sign and six
  digits when it is outside 0 to 9999.
\<close>

definition isoYear :: "int \<Rightarrow> jsstring" where
  "isoYear y =
     (if 0 \<le> y \<and> y \<le> 9999 then zpad 4 (nat y)
      else (if y < 0 then 0x2D else 0x2B) # zpad 6 (nat \<bar>y\<bar>))"

definition toISOString :: "int \<Rightarrow> jsstring" where
  "toISOString t =
     isoYear (YearFromTime t) @ [0x2D] @ zpad 2 (nat (MonthFromTime t + 1)) @ [0x2D] @
     zpad 2 (nat (DateFromTime t)) @ [0x54] @ zpad 2 (nat (HourFromTime t)) @ [0x3A] @
     zpad 2 (nat (MinFromTime t)) @ [0x3A] @ zpad 2 (nat (SecFromTime t)) @ [0x2E] @
     zpad 3 (nat (msFromTime t)) @ [0x5A]"

text \<open>
  \<open>Date.parse\<close> on the format \<open>toISOString\<close> writes, which is all the page ever parses.
  The shorter forms of the ECMAScript date-time format, and what an engine accepts
  beyond it, are not read here: for them the model answers NaN.
\<close>

definition digitValue :: "16 word \<Rightarrow> nat option" where
  "digitValue c = (if 0x30 \<le> c \<and> c \<le> 0x39 then Some (unat c - 48) else None)"

fun parseDigits :: "nat \<Rightarrow> jsstring \<Rightarrow> nat option" where
  "parseDigits acc [] = Some acc"
| "parseDigits acc (c # cs) =
     (case digitValue c of None \<Rightarrow> None | Some v \<Rightarrow> parseDigits (10 * acc + v) cs)"

definition field :: "nat \<Rightarrow> jsstring \<Rightarrow> (nat \<times> jsstring) option" where
  "field w s =
     (if length s < w then None
      else case parseDigits 0 (take w s) of None \<Rightarrow> None | Some v \<Rightarrow> Some (v, drop w s))"

definition lit :: "16 word \<Rightarrow> jsstring \<Rightarrow> jsstring option" where
  "lit c s = (case s of [] \<Rightarrow> None | x # r \<Rightarrow> if x = c then Some r else None)"

definition DaysInMonth :: "int \<Rightarrow> int \<Rightarrow> int" where
  "DaysInMonth y m =
     (if m = 1 then (if InLeapYear y then 29 else 28)
      else if m = 3 \<or> m = 5 \<or> m = 8 \<or> m = 10 then 30 else 31)"

definition MakeDay :: "int \<Rightarrow> int \<Rightarrow> int \<Rightarrow> int" where
  "MakeDay y m dt = DayFromYear y + monthStart (InLeapYear y) m + dt - 1"

definition MakeTime :: "int \<Rightarrow> int \<Rightarrow> int \<Rightarrow> int \<Rightarrow> int" where
  "MakeTime h mi s ms = h * 3600000 + mi * 60000 + s * 1000 + ms"

definition MakeDate :: "int \<Rightarrow> int \<Rightarrow> int" where
  "MakeDate day time = day * msPerDay + time"

definition TimeClip :: "int \<Rightarrow> int option" where
  "TimeClip t = (if \<bar>t\<bar> \<le> 8640000000000000 then Some t else None)"

text \<open>The year: four digits, or a sign and six digits, of which \<open>-000000\<close> is not a year.\<close>

definition parseYear :: "jsstring \<Rightarrow> (int \<times> jsstring) option" where
  "parseYear s =
     (case s of [] \<Rightarrow> None | c # r \<Rightarrow>
        if c = 0x2B then map_option (\<lambda>(n, s1). (int n, s1)) (field 6 r)
        else if c = 0x2D
        then Option.bind (field 6 r) (\<lambda>(n, s1). if n = 0 then None else Some (- int n, s1))
        else map_option (\<lambda>(n, s1). (int n, s1)) (field 4 s))"

text \<open>What follows the year: \<open>-MM-DDTHH:mm:ss.sssZ\<close>, each field in its range.\<close>

definition parseTail :: "int \<Rightarrow> jsstring \<Rightarrow> int option" where
  "parseTail y s1 =
     Option.bind (lit 0x2D s1) (\<lambda>s2.
     Option.bind (field 2 s2) (\<lambda>(mo, s3).
     Option.bind (lit 0x2D s3) (\<lambda>s4.
     Option.bind (field 2 s4) (\<lambda>(dt, s5).
     Option.bind (lit 0x54 s5) (\<lambda>s6.
     Option.bind (field 2 s6) (\<lambda>(h, s7).
     Option.bind (lit 0x3A s7) (\<lambda>s8.
     Option.bind (field 2 s8) (\<lambda>(mi, s9).
     Option.bind (lit 0x3A s9) (\<lambda>s10.
     Option.bind (field 2 s10) (\<lambda>(sec, s11).
     Option.bind (lit 0x2E s11) (\<lambda>s12.
     Option.bind (field 3 s12) (\<lambda>(ms, s13).
       if s13 = [0x5A] \<and>
          1 \<le> mo \<and> mo \<le> 12 \<and> 1 \<le> dt \<and> int dt \<le> DaysInMonth y (int mo - 1) \<and>
          h \<le> 23 \<and> mi \<le> 59 \<and> sec \<le> 59
       then TimeClip (MakeDate (MakeDay y (int mo - 1) (int dt))
              (MakeTime (int h) (int mi) (int sec) (int ms)))
       else None))))))))))))"

definition Date_parse :: "jsstring \<Rightarrow> int option" where
  "Date_parse s = Option.bind (parseYear s) (\<lambda>(y, s1). parseTail y s1)"

text \<open>
  The value of a \<open>createdAt\<close> or \<open>timestamp\<close> property at run time: the \<open>Date\<close> object
  the interfaces declare, or what \<open>JSON.parse\<close> leaves there (a string, or null).
\<close>

datatype TimeField = DateObj "int option" | JsonText jsstring | JsonNull

text \<open>\<open>new Date(v)\<close>: a copy of a date, the parse of a string, the epoch for null.\<close>

fun new_Date :: "TimeField \<Rightarrow> TimeField" where
  "new_Date (DateObj tv) = DateObj tv"
| "new_Date (JsonText s) = DateObj (Date_parse s)"
| "new_Date JsonNull = DateObj (Some 0)"

text \<open>
  What \<open>JSON.stringify\<close> writes for the property and \<open>JSON.parse\<close> reads back:
  \<open>Date.prototype.toJSON\<close> gives the ISO text of a valid date and null for an invalid one.
\<close>

fun toJSON :: "TimeField \<Rightarrow> TimeField" where
  "toJSON (DateObj None) = JsonNull"
| "toJSON (DateObj (Some t)) = JsonText (toISOString t)"
| "toJSON (JsonText s) = JsonText s"
| "toJSON JsonNull = JsonNull"

section \<open>The data model of the page\<close>

datatype MessageRole = user | assistant | system

record Message =
  role :: MessageRole
  content :: jsstring
  timestamp :: "TimeField option"

text \<open>The property \<open>id\<close> of a chat is the field \<open>chat_id\<close>.\<close>

record Chat =
  chat_id :: jsstring
  title :: jsstring
  messages :: "Message list"
  createdAt :: TimeField

text \<open>
  The entry \<open>chats\<close> of \<open>localStorage\<close> holds the text \<open>JSON.stringify\<close> writes. It
  is kept here as the value \<open>JSON.parse\<close> reads back from that text: the same array of
  objects, each \<open>Date\<close> replaced by what its \<open>toJSON\<close> gives, an absent \<open>timestamp\<close>
  still absent.
\<close>

definition stringify_message :: "Message \<Rightarrow> Message" where
  "stringify_message m = m\<lparr>timestamp := map_option toJSON (timestamp m)\<rparr>"

definition stringify_chat :: "Chat \<Rightarrow> Chat" where
  "stringify_chat c =
     c\<lparr>messages := map stringify_message (messages c), createdAt := toJSON (createdAt c)\<rparr>"

definition JSON_stringify :: "Chat list \<Rightarrow> Chat list" where
  "JSON_stringify cs = map stringify_chat cs"

definition createRickPrompt :: "jsstring \<Rightarrow> jsstring" where
  "createRickPrompt userInput =
     js ''You are Rick from Rick and Morty. Respond to the following message in Rick's characteristic style, complete with his mannerisms, catchphrases, and attitude. Be sarcastic, scientific, and occasionally burp (use *burp* in text). Keep responses under 200 words.'' @
     [0x0A, 0x0A] @ js ''User message: '' @ userInput @ [0x0A, 0x0A] @ js ''Rick's response:''"

section \<open>The state of the component and of its surroundings\<close>

text \<open>
  \<open>State\<close> is what the \<open>useState\<close> hooks of \<open>Home\<close> hold (the flag of the sidebar,
  which no handler below reads, is left out). A handler is created by a render and
  reads the state of that render, while its setters act on the state React holds when
  they run: every handler below takes the render's state \<open>r\<close> next to the world \<open>w\<close>.
\<close>

record State =
  loading :: bool
  activeChat :: "Chat option"
  chats :: "Chat list"
  userInput :: jsstring
  error :: "jsstring option"

datatype Error = Error jsstring

record RequestBody =
  prompt :: jsstring
  model :: jsstring

record World =
  react :: State
  localStorage :: "Chat list option"
  toasts :: "jsstring list"
  console :: "Error list"
  fetched :: "RequestBody list"

definition initialState :: State where
  "initialState =
     \<lparr>loading = False, activeChat = None, chats = [], userInput = [], error = None\<rparr>"

definition setLoading :: "bool \<Rightarrow> World \<Rightarrow> World" where
  "setLoading b w = w\<lparr>react := (react w)\<lparr>loading := b\<rparr>\<rparr>"

definition setActiveChat :: "Chat option \<Rightarrow> World \<Rightarrow> World" where
  "setActiveChat c w = w\<lparr>react := (react w)\<lparr>activeChat := c\<rparr>\<rparr>"

definition setUserInput :: "jsstring \<Rightarrow> World \<Rightarrow> World" where
  "setUserInput s w = w\<lparr>react := (react w)\<lparr>userInput := s\<rparr>\<rparr>"

definition setError :: "jsstring option \<Rightarrow> World \<Rightarrow> World" where
  "setError e w = w\<lparr>react := (react w)\<lparr>error := e\<rparr>\<rparr>"

text \<open>The second effect: it runs after every render in which \<open>chats\<close> is a new array.\<close>

definition saveChats :: "Chat list \<Rightarrow> World \<Rightarrow> World" where
  "saveChats cs w = w\<lparr>localStorage := Some (JSON_stringify cs)\<rparr>"

text \<open>
  \<open>setChats\<close>, given an updater (\<open>\<lambda>_. cs\<close> for a plain value). Each call of the source
  passes a fresh array, so the render that follows runs the second effect.
\<close>

definition setChats :: "(Chat list \<Rightarrow> Chat list) \<Rightarrow> World \<Rightarrow> World" where
  "setChats f w =
     (let cs = f (chats (react w)) in saveChats cs (w\<lparr>react := (react w)\<lparr>chats := cs\<rparr>\<rparr>))"

text \<open>
  Mounting runs both effects of the first render, in order: the first reads the entry
  and queues its updates, the second writes the chats of that render; the render that
  follows the queued \<open>setChats\<close> runs the second effect again.
\<close>

definition mount :: "World \<Rightarrow> World" where
  "mount w =
     (let savedChats = localStorage w;
          w0 = saveChats (chats (react w)) w
      in case savedChats of
           None \<Rightarrow> w0
         | Some parsedChats \<Rightarrow>
             let convertedChats =
                   map (\<lambda>chat. chat\<lparr>createdAt := new_Date (createdAt chat)\<rparr>) parsedChats;
                 w1 = setChats (\<lambda>_. convertedChats) w0
             in if length convertedChats > 0
                then setActiveChat (Some (last convertedChats)) w1 else w1)"

section \<open>The handlers\<close>

text \<open>\<open>now1\<close> is what \<open>Date.now()\<close> reads and \<open>now2\<close> what \<open>new Date()\<close> reads after it.\<close>

definition createNewChat :: "State \<Rightarrow> int \<Rightarrow> int \<Rightarrow> World \<Rightarrow> World" where
  "createNewChat r now1 now2 w =
     (let newChat =
            \<lparr>chat_id = Number_toString now1,
             title = js ''New Chat '' @ Number_toString (int (length (chats r) + 1)),
             messages = [],
             createdAt = DateObj (Some now2)\<rparr>
      in setActiveChat (Some newChat) (setChats (\<lambda>prev. prev @ [newChat]) w))"

text \<open>
  The object \<open>updateChat\<close> builds for the chat it updates:
  \<open>{...chat, title: messages[0]?.content.slice(0, 30) || chat.title, messages}\<close>.
\<close>

definition updatedChat :: "Chat \<Rightarrow> Message list \<Rightarrow> Chat" where
  "updatedChat chat msgs =
     chat\<lparr>title := (case msgs of [] \<Rightarrow> title chat
                       | m # _ \<Rightarrow> or_else (slice0 30 (content m)) (title chat)),
          messages := msgs\<rparr>"

definition updateChat :: "State \<Rightarrow> jsstring \<Rightarrow> Message list \<Rightarrow> World \<Rightarrow> World" where
  "updateChat r chatId msgs w =
     (let updatedChats =
            map (\<lambda>chat. if chat_id chat = chatId then updatedChat chat msgs else chat) (chats r);
          w1 = setChats (\<lambda>_. updatedChats) w
      in case find (\<lambda>chat. chat_id chat = chatId) updatedChats of
           None \<Rightarrow> w1
         | Some updatedActiveChat \<Rightarrow> setActiveChat (Some updatedActiveChat) w1)"

text \<open>A click on the \<open>i\<close>-th entry of the sidebar.\<close>

definition selectChat :: "State \<Rightarrow> nat \<Rightarrow> World \<Rightarrow> World" where
  "selectChat r i w = (if i < length (chats r) then setActiveChat (Some (chats r ! i)) w else w)"

definition handleError :: "Error \<Rightarrow> World \<Rightarrow> World" where
  "handleError err w =
     w\<lparr>console := console w @ [err],
       toasts := toasts w @ [js ''Something went wrong. Please try again.'']\<rparr>"

definition fetch :: "RequestBody \<Rightarrow> World \<Rightarrow> World" where
  "fetch body w = w\<lparr>fetched := fetched w @ [body]\<rparr>"

text \<open>
  \<open>sendMessage\<close> runs in three stages. The first runs when the form is submitted, up to
  \<open>await fetch\<close>; what it leaves to the later stages is the closure: the render's state,
  the active chat of that render and \<open>updatedMessages\<close>. With no active chat it calls
  \<open>createNewChat\<close> with both clock readings; otherwise its \<open>new Date()\<close> reads \<open>now1\<close>.
\<close>

record SendClosure =
  render :: State
  active :: Chat
  updatedMessages :: "Message list"

definition sendMessage :: "State \<Rightarrow> int \<Rightarrow> int \<Rightarrow> World \<Rightarrow> World \<times> SendClosure option" where
  "sendMessage r now1 now2 w =
     (if trim (userInput r) = [] then (w, None)
      else case activeChat r of
        None \<Rightarrow> (createNewChat r now1 now2 w, None)
      | Some a \<Rightarrow>
          let w1 = setError None (setLoading True w);
              newMessage =
                \<lparr>role = user, content = userInput r, timestamp = Some (DateObj (Some now1))\<rparr>;
              updated = messages a @ [newMessage];
              w2 = updateChat r (chat_id a) updated w1;
              w3 = setUserInput [] w2;
              w4 = fetch \<lparr>prompt = createRickPrompt (userInput r),
                          model = js ''mistralai/Mixtral-8x7B-Instruct-v0.1''\<rparr> w3
          in (w4, Some \<lparr>render = r, active = a, updatedMessages = updated\<rparr>))"

text \<open>
  The second stage runs when \<open>fetch\<close> settles: with a rejection, or with a response
  whose \<open>ok\<close> says that the status is in 200 to 299. A failure is caught, reported by
  \<open>handleError\<close>, and \<open>finally\<close> clears the loading flag; a success creates the runner,
  registers the listener for \<open>content\<close> and clears the flag as well.
\<close>

datatype FetchOutcome = Rejected Error | Responded nat

definition ok :: "nat \<Rightarrow> bool" where
  "ok status \<longleftrightarrow> 200 \<le> status \<and> status \<le> 299"

record Runner =
  closure :: SendClosure
  rickResponse :: jsstring

definition sendMessage_settled :: "SendClosure \<Rightarrow> FetchOutcome \<Rightarrow> World \<Rightarrow> World \<times> Runner option" where
  "sendMessage_settled c outcome w =
     (case outcome of
        Rejected err \<Rightarrow> (setLoading False (handleError err w), None)
      | Responded status \<Rightarrow>
          if \<not> ok status
          then (setLoading False
                  (handleError (Error (js ''HTTP error! status: '' @ Number_toString (int status))) w),
                None)
          else (setLoading False w, Some \<lparr>closure = c, rickResponse = []\<rparr>))"

text \<open>
  The listener registered for \<open>content\<close>; \<open>now\<close> is what its \<open>new Date()\<close> reads.
  \<open>scrollToBottom\<close> moves the view only and is left out.
\<close>

definition on_content :: "jsstring \<Rightarrow> int \<Rightarrow> Runner \<times> World \<Rightarrow> Runner \<times> World" where
  "on_content delta now rw =
     (let rn = fst rw; w = snd rw; c = closure rn;
          rick = rickResponse rn @ delta;
          messagesWithResponse =
            updatedMessages c @
            [\<lparr>role = assistant, content = rick, timestamp = Some (DateObj (Some now))\<rparr>]
      in (rn\<lparr>rickResponse := rick\<rparr>,
          updateChat (render c) (chat_id (active c)) messagesWithResponse w))"

text \<open>
  What the runner emits. The page listens to \<open>content\<close> only: an \<open>error\<close> or \<open>end\<close> of
  the stream reaches no code of the page, and the \<open>try\<close> block of \<open>sendMessage\<close> has
  been left by then.
\<close>

datatype StreamEvent = ContentEvent jsstring | ErrorEvent Error | EndEvent

fun emit :: "StreamEvent \<times> int \<Rightarrow> Runner \<times> World \<Rightarrow> Runner \<times> World" where
  "emit (ContentEvent delta, now) rw = on_content delta now rw"
| "emit (ErrorEvent err, now) rw = rw"
| "emit (EndEvent, now) rw = rw"

definition run_stream :: "(StreamEvent \<times> int) list \<Rightarrow> Runner \<times> World \<Rightarrow> Runner \<times> World" where
  "run_stream events rw = fold emit events rw"

text \<open>A stream that emits only \<open>content\<close>: the deltas, each with the clock reading of its listener.\<close>

definition content_events :: "(jsstring \<times> int) list \<Rightarrow> (StreamEvent \<times> int) list" where
  "content_events ds = map (\<lambda>(delta, now). (ContentEvent delta, now)) ds"

section \<open>The event loop\<close>

text \<open>
  The page runs one handler at a time, and React renders again before the next event is
  handled: a handler started by the user is the one of the latest render. What is in
  flight between events are the sends that await their \<open>fetch\<close> and the runners whose
  streams are open; each keeps the closure of the render that started it. The page
  renders the input and the form only while a chat is active: without one nothing can be
  typed or submitted, and the two events leave the system as it is.
\<close>

record System =
  world :: World
  awaiting :: "SendClosure list"
  runners :: "Runner list"

datatype Event =
    Typed jsstring
  | NewChatClicked int int
  | ChatClicked nat
  | Submitted int int
  | Settled nat FetchOutcome
  | Emitted nat StreamEvent int

fun step :: "Event \<Rightarrow> System \<Rightarrow> System" where
  "step (Typed text) s =
     (if activeChat (react (world s)) = None then s
      else s\<lparr>world := setUserInput text (world s)\<rparr>)"
| "step (NewChatClicked now1 now2) s =
     s\<lparr>world := createNewChat (react (world s)) now1 now2 (world s)\<rparr>"
| "step (ChatClicked i) s = s\<lparr>world := selectChat (react (world s)) i (world s)\<rparr>"
| "step (Submitted now1 now2) s =
     (if activeChat (react (world s)) = None then s
      else case sendMessage (react (world s)) now1 now2 (world s) of
             (w, None) \<Rightarrow> s\<lparr>world := w\<rparr>
           | (w, Some c) \<Rightarrow> s\<lparr>world := w, awaiting := awaiting s @ [c]\<rparr>)"
| "step (Settled i outcome) s =
     (if i < length (awaiting s)
      then case sendMessage_settled (awaiting s ! i) outcome (world s) of
             (w, None) \<Rightarrow>
               s\<lparr>world := w, awaiting := take i (awaiting s) @ drop (Suc i) (awaiting s)\<rparr>
           | (w, Some rn) \<Rightarrow>
               s\<lparr>world := w, awaiting := take i (awaiting s) @ drop (Suc i) (awaiting s),
                 runners := runners s @ [rn]\<rparr>
      else s)"
| "step (Emitted i ev now) s =
     (if i < length (runners s)
      then case emit (ev, now) (runners s ! i, world s) of
             (rn, w) \<Rightarrow> s\<lparr>world := w, runners := (runners s)[i := rn]\<rparr>
      else s)"

definition run :: "Event list \<Rightarrow> System \<Rightarrow> System" where
  "run events s = fold step events s"

text \<open>The page right after it is mounted on an empty \<open>localStorage\<close>.\<close>

definition emptyWorld :: World where
  "emptyWorld =
     \<lparr>react = initialState, localStorage = None, toasts = [], console = [], fetched = []\<rparr>"

definition start :: System where
  "start = \<lparr>world = mount emptyWorld, awaiting = [], runners = []\<rparr>"

section \<open>Titles and first messages\<close>

text \<open>
  A chat is titled when its title is the first 30 code units of the content of its first
  message, for a first message whose content is not empty. A state is titled when the
  chats of its list and its active chat are; a system, when its world and the renders
  kept by its closures are.
\<close>

definition titled :: "Chat \<Rightarrow> bool" where
  "titled c =
     (case messages c of [] \<Rightarrow> True
      | m # _ \<Rightarrow> content m = [] \<or> title c = slice0 30 (content m))"

definition titled_state :: "State \<Rightarrow> bool" where
  "titled_state st \<longleftrightarrow>
     list_all titled (chats st) \<and> (case activeChat st of None \<Rightarrow> True | Some a \<Rightarrow> titled a)"

definition titled_system :: "System \<Rightarrow> bool" where
  "titled_system s \<longleftrightarrow>
     titled_state (react (world s)) \<and>
     list_all (\<lambda>c. titled_state (render c)) (awaiting s) \<and>
     list_all (\<lambda>rn. titled_state (render (closure rn))) (runners s)"

section \<open>The active chat and the list\<close>

text \<open>
  A state is listed when its active chat, if there is one, is a chat of its list; a
  closure, when the active chat it keeps is in the list of its render.
\<close>

definition listed :: "State \<Rightarrow> bool" where
  "listed st = (case activeChat st of None \<Rightarrow> True | Some a \<Rightarrow> a \<in> set (chats st))"

definition listed_closure :: "SendClosure \<Rightarrow> bool" where
  "listed_closure c \<longleftrightarrow> active c \<in> set (chats (render c))"

definition listed_system :: "System \<Rightarrow> bool" where
  "listed_system s \<longleftrightarrow>
     listed (react (world s)) \<and>
     list_all listed_closure (awaiting s) \<and>
     list_all (\<lambda>rn. listed_closure (closure rn)) (runners s)"

section \<open>The route \<open>/api/together\<close>\<close>

text \<open>
  The module of the route creates the client and then checks the environment, both when
  it is initialised; \<open>POST\<close> exists only once that has succeeded. The client library is
  not part of the repository: its constructor \<open>Together_new\<close> and its call \<open>stream\<close> are
  parameters, each returning an error where the library throws.
\<close>

type_synonym env = "jsstring \<rightharpoonup> jsstring"

definition module_init :: "(env \<Rightarrow> Error + 'client) \<Rightarrow> env \<Rightarrow> Error + 'client" where
  "module_init Together_new process_env =
     (case Together_new process_env of
        Inl e \<Rightarrow> Inl e
      | Inr together \<Rightarrow>
          (case process_env (js ''TOGETHER_API_KEY'') of
             None \<Rightarrow> Inl (Error (js ''Missing together env var''))
           | Some v \<Rightarrow>
               if v = [] then Inl (Error (js ''Missing together env var'')) else Inr together))"

record StreamParams =
  params_model :: jsstring
  params_messages :: "(MessageRole \<times> jsstring) list"
  temperature :: real
  max_tokens :: nat

definition systemPrompt :: jsstring where
  "systemPrompt =
     js ''You are Rick from Rick and Morty. You must stay in character at all times. You are a genius scientist who is often drunk, sarcastic, and nihilistic. You frequently burp (indicated by *burp*) and use catchphrases like '' @
     [0x22] @ js ''Wubba Lubba Dub Dub'' @ [0x22] @
     js ''. You should be rude, condescending, but occasionally show moments of genuine care. Your responses should reflect Rick's personality, scientific knowledge, and interdimensional experience.''"

text \<open>
  What \<open>POST\<close> answers: the stream of the runner, or the JSON error with its status.
  \<open>json\<close> is what \<open>await req.json()\<close> gives. Every error is caught and logged.
\<close>

datatype 'stream HttpResponse = StreamBody 'stream | JsonError nat jsstring

definition POST ::
  "('client \<Rightarrow> StreamParams \<Rightarrow> Error + 'stream) \<Rightarrow> 'client \<Rightarrow> Error + RequestBody \<Rightarrow>
   'stream HttpResponse \<times> Error list" where
  "POST stream together json =
     (case json of
        Inl e \<Rightarrow> (JsonError 500 (js ''Internal Server Error''), [e])
      | Inr body \<Rightarrow>
          (case stream together
                  \<lparr>params_model = model body,
                   params_messages = [(system, systemPrompt), (user, prompt body)],
                   temperature = 9 / 10, max_tokens = 300\<rparr> of
             Inl e \<Rightarrow> (JsonError 500 (js ''Internal Server Error''), [e])
           | Inr runner \<Rightarrow> (StreamBody runner, [])))"

text \<open>The route as a whole: the requests are answered by a module that was initialised.\<close>

definition route ::
  "(env \<Rightarrow> Error + 'client) \<Rightarrow> ('client \<Rightarrow> StreamParams \<Rightarrow> Error + 'stream) \<Rightarrow> env \<Rightarrow>
   (Error + RequestBody) list \<Rightarrow> Error + ('stream HttpResponse \<times> Error list) list" where
  "route Together_new stream process_env requests =
     (case module_init Together_new process_env of
        Inl e \<Rightarrow> Inl e
      | Inr together \<Rightarrow> Inr (map (POST stream together) requests))"

section \<open>Storing and loading\<close>

text \<open>
  A chat is valid when its creation date is a \<open>Date\<close> with a time value in the range
  of \<open>Date\<close> (what \<open>new Date()\<close> gives). \<open>reload cs\<close> is a page mounted on the entry
  the second effect writes for the chats \<open>cs\<close>; \<open>reloaded c\<close> is the chat \<open>c\<close> with the
  timestamps of its messages as JSON has them.
\<close>

definition validChat :: "Chat \<Rightarrow> bool" where
  "validChat c =
     (case createdAt c of
        DateObj (Some t) \<Rightarrow> \<bar>t\<bar> \<le> 8640000000000000
      | _ \<Rightarrow> False)"

definition reloaded :: "Chat \<Rightarrow> Chat" where
  "reloaded c = c\<lparr>messages := map stringify_message (messages c)\<rparr>"

definition reload :: "Chat list \<Rightarrow> World" where
  "reload cs = mount (emptyWorld\<lparr>localStorage := localStorage (saveChats cs emptyWorld)\<rparr>)"

section \<open>Example states\<close>

definition hello_events :: "Event list" where
  "hello_events =
     [NewChatClicked 1700000000000 1700000000001,
      Typed (js ''Hello''),
      Submitted 1700000005000 1700000005000,
      Settled 0 (Responded 200),
      Emitted 0 (ContentEvent (js ''H'')) 1700000006000,
      Emitted 0 (ContentEvent (js ''i'')) 1700000006100,
      Emitted 0 (ContentEvent (js '' there'')) 1700000006200]"

definition hello_chat :: Chat where
  "hello_chat =
     \<lparr>chat_id = Number_toString 1700000000000, title = js ''New Chat 1'', messages = [],
      createdAt = DateObj (Some 1700000000001)\<rparr>"

definition hello_sent :: Chat where
  "hello_sent =
     hello_chat\<lparr>title := js ''Hello'',
       messages := [\<lparr>role = user, content = js ''Hello'',
                     timestamp = Some (DateObj (Some 1700000005000))\<rparr>]\<rparr>"


definition stream_error_events :: "Event list" where
  "stream_error_events =
     take 5 hello_events @ [Emitted 0 (ErrorEvent (Error (js ''network error''))) 1700000006100]"

definition http_500_events :: "Event list" where
  "http_500_events = take 3 hello_events @ [Settled 0 (Responded 500)]"

text \<open>
  Two chats; \<open>x\<close> is sent in the second and its request succeeds; the first chat is
  selected and \<open>one\<close> is sent in it; then the stream of the second chat delivers a delta;
  the first chat is selected again and \<open>two\<close> is sent in it.
\<close>

definition stale_events :: "Event list" where
  "stale_events =
     [NewChatClicked 1700000000000 1700000000000,
      NewChatClicked 1700000001000 1700000001000,
      Typed (js ''x''),
      Submitted 1700000002000 1700000002000,
      Settled 0 (Responded 200),
      ChatClicked 0,
      Typed (js ''one''),
      Submitted 1700000003000 1700000003000,
      Emitted 0 (ContentEvent (js ''d'')) 1700000004000,
      ChatClicked 0,
      Typed (js ''two''),
      Submitted 1700000005000 1700000005000]"

definition chatA :: Chat where
  "chatA = \<lparr>chat_id = js ''1700000000000'', title = js ''New Chat 1'', messages = [],
            createdAt = DateObj (Some 1700000000000)\<rparr>"

definition chatB :: Chat where
  "chatB = \<lparr>chat_id = js ''1700000060000'', title = js ''New Chat 2'', messages = [],
            createdAt = DateObj (Some 1700000060000)\<rparr>"


definition world_two :: World where
  "world_two =
     \<lparr>react = initialState\<lparr>chats := [chatA, chatB], activeChat := Some chatB\<rparr>,
      localStorage = Some (JSON_stringify [chatA, chatB]),
      toasts = [], console = [], fetched = []\<rparr>"

definition world_blank :: World where
  "world_blank = world_two\<lparr>react := (react world_two)\<lparr>userInput := [0x20, 0x09, 0xA0]\<rparr>\<rparr>"

definition world_hello :: World where
  "world_hello = world_two\<lparr>react := (react world_two)\<lparr>userInput := js ''Hello''\<rparr>\<rparr>"

definition world_first :: World where
  "world_first = selectChat (react world_hello) 0 world_hello"

definition closure_hello :: SendClosure where
  "closure_hello =
     \<lparr>render = react world_hello, active = chatB,
      updatedMessages =
        [\<lparr>role = user, content = js ''Hello'', timestamp = Some (DateObj (Some 1700000120000))\<rparr>]\<rparr>"

section \<open>Dates and their ISO text\<close>

lemma year_from_bounds:
  assumes "DayFromYear y0 \<le> d"
  shows "DayFromYear (year_from y0 d) \<le> d \<and> d < DayFromYear (year_from y0 d + 1)"
  using assms
proof (induction y0 d rule: year_from.induct)
  case (1 y d)
  show ?case
  proof (cases "DayFromYear (y + 1) \<le> d")
    case True
    with "1.IH" show ?thesis
      by (subst (1 2) year_from.simps) simp
  next
    case False
    with "1.prems" show ?thesis
      by (subst (1 2) year_from.simps) simp
  qed
qed

lemma leap_days_le:
  fixes k :: int
  assumes "0 \<le> k"
  shows "(k + 1) div 4 - (k + 69) div 100 + (k + 369) div 400 \<le> k"
proof (cases "k = 0")
  case True
  then show ?thesis by simp
next
  case False
  define A B C where "A = (k + 1) div 4" and "B = (k + 69) div 100" and "C = (k + 369) div 400"
  have a: "4 * A \<le> k + 1" unfolding A_def by linarith
  have b: "k - 30 \<le> 100 * B" unfolding B_def by linarith
  have c: "400 * C \<le> k + 369" unfolding C_def by linarith
  from a b c assms False have "A - B + C \<le> k" by linarith
  then show ?thesis by (simp add: A_def B_def C_def)
qed

lemma leap_days_nonneg:
  fixes k :: int
  assumes "0 \<le> k"
  shows "0 \<le> (k + 1) div 4 - (k + 69) div 100 + (k + 369) div 400"
proof -
  define A B C where "A = (k + 1) div 4" and "B = (k + 69) div 100" and "C = (k + 369) div 400"
  have a: "k - 2 \<le> 4 * A" unfolding A_def by linarith
  have b: "100 * B \<le> k + 69" unfolding B_def by linarith
  have c: "0 \<le> C" unfolding C_def using assms by simp
  have b0: "0 \<le> B" unfolding B_def using assms by simp
  have a0: "0 \<le> A" unfolding A_def using assms by simp
  from a b c a0 b0 assms have "0 \<le> A - B + C" by linarith
  then show ?thesis by (simp add: A_def B_def C_def)
qed

lemma leap_days_nonpos:
  fixes k :: int
  assumes "k < 0"
  shows "(k + 1) div 4 - (k + 69) div 100 + (k + 369) div 400 \<le> 0"
proof (cases "k = - 1")
  case True
  then show ?thesis by simp
next
  case False
  define A B C where "A = (k + 1) div 4" and "B = (k + 69) div 100" and "C = (k + 369) div 400"
  have a: "4 * A \<le> k + 1" unfolding A_def by linarith
  have b: "k - 30 \<le> 100 * B" unfolding B_def by linarith
  have c: "400 * C \<le> k + 369" unfolding C_def by linarith
  from a b c assms False have "A - B + C \<le> 0" by linarith
  then show ?thesis by (simp add: A_def B_def C_def)
qed

lemma DayFromYear_1970:
  "DayFromYear (1970 + k) = 365 * k + ((k + 1) div 4 - (k + 69) div 100 + (k + 369) div 400)"
  by (simp add: DayFromYear_def algebra_simps)

lemma DayFromYear_start:
  "DayFromYear (1970 + (if 0 \<le> d then d div 366 else d div 365)) \<le> d"
proof (cases "0 \<le> d")
  case True
  then have "0 \<le> d div 366" by simp
  from leap_days_le [OF this] have "DayFromYear (1970 + d div 366) \<le> 366 * (d div 366)"
    unfolding DayFromYear_1970 by simp
  also have "\<dots> \<le> d" by simp
  finally show ?thesis using True by simp
next
  case False
  then have "d div 365 < 0" by simp
  from leap_days_nonpos [OF this] have "DayFromYear (1970 + d div 365) \<le> 365 * (d div 365)"
    unfolding DayFromYear_1970 by simp
  also have "\<dots> \<le> d" by simp
  finally show ?thesis using False by simp
qed

lemma YearFromDay_bounds:
  "DayFromYear (YearFromDay d) \<le> d \<and> d < DayFromYear (YearFromDay d + 1)"
  unfolding YearFromDay_def by (rule year_from_bounds) (rule DayFromYear_start)

lemma div_step:
  fixes a n :: int
  assumes "0 < n"
  shows "a div n - (a - 1) div n = (if a mod n = 0 then 1 else 0)"
proof (cases "a mod n = 0")
  case True
  have "n * (a div n) + a mod n = a"
    by (rule mult_div_mod_eq)
  with True have "n * (a div n) = a"
    by simp
  then have "a - 1 = n * (a div n - 1) + (n - 1)"
    by (simp add: algebra_simps)
  from int_div_pos_eq [OF this] assms have "(a - 1) div n = a div n - 1"
    by simp
  with True show ?thesis by simp
next
  case False
  moreover from assms have "0 \<le> a mod n"
    by (rule pos_mod_sign)
  ultimately have pos: "0 < a mod n"
    by linarith
  have "a - 1 = n * (a div n) + (a mod n - 1)"
    by (simp add: algebra_simps)
  moreover have "0 \<le> a mod n - 1"
    using pos by simp
  moreover have "a mod n - 1 < n"
    using pos_mod_bound [OF assms, of a] by simp
  ultimately have "(a - 1) div n = a div n"
    by (rule int_div_pos_eq)
  with False show ?thesis by simp
qed

lemma mod4: "(y - 1968) mod 4 = (y::int) mod 4"
proof -
  have "(y - 1968) mod 4 = (y + 4 * (- 492)) mod 4" by simp
  also have "\<dots> = y mod 4" by (rule mod_mult_self2)
  finally show ?thesis .
qed

lemma mod100: "(y - 1900) mod 100 = (y::int) mod 100"
proof -
  have "(y - 1900) mod 100 = (y + 100 * (- 19)) mod 100" by simp
  also have "\<dots> = y mod 100" by (rule mod_mult_self2)
  finally show ?thesis .
qed

lemma mod400: "(y - 1600) mod 400 = (y::int) mod 400"
proof -
  have "(y - 1600) mod 400 = (y + 400 * (- 4)) mod 400" by simp
  also have "\<dots> = y mod 400" by (rule mod_mult_self2)
  finally show ?thesis .
qed

lemma mod_100_4:
  assumes "(y::int) mod 100 = 0"
  shows "y mod 4 = 0"
proof -
  from assms have "100 dvd y" by (simp add: mod_eq_0_iff_dvd)
  moreover have "(4::int) dvd 100" by simp
  ultimately have "4 dvd y" by (rule dvd_trans [rotated])
  then show ?thesis by (simp add: mod_eq_0_iff_dvd)
qed

lemma mod_400_100:
  assumes "(y::int) mod 400 = 0"
  shows "y mod 100 = 0"
proof -
  from assms have "400 dvd y" by (simp add: mod_eq_0_iff_dvd)
  moreover have "(100::int) dvd 400" by simp
  ultimately have "100 dvd y" by (rule dvd_trans [rotated])
  then show ?thesis by (simp add: mod_eq_0_iff_dvd)
qed

lemma year_length: "DayFromYear (y + 1) - DayFromYear y = (if InLeapYear y then 366 else 365)"
proof -
  define A B C A' B' C' where
    "A = (y - 1969) div 4" and "B = (y - 1901) div 100" and "C = (y - 1601) div 400" and
    "A' = (y - 1968) div 4" and "B' = (y - 1900) div 100" and "C' = (y - 1600) div 400"
  define p4 p100 p400 where "p4 \<longleftrightarrow> y mod 4 = 0" and "p100 \<longleftrightarrow> y mod 100 = 0"
    and "p400 \<longleftrightarrow> y mod 400 = 0"
  have a: "A' - A = (if p4 then 1 else 0)"
    using div_step [of 4 "y - 1968"] by (simp add: A_def A'_def mod4 p4_def)
  have b: "B' - B = (if p100 then 1 else 0)"
    using div_step [of 100 "y - 1900"] by (simp add: B_def B'_def mod100 p100_def)
  have c: "C' - C = (if p400 then 1 else 0)"
    using div_step [of 400 "y - 1600"] by (simp add: C_def C'_def mod400 p400_def)
  have imp: "p100 \<longrightarrow> p4" "p400 \<longrightarrow> p100"
    using mod_100_4 [of y] mod_400_100 [of y] by (simp_all add: p4_def p100_def p400_def)
  have leap: "InLeapYear y \<longleftrightarrow> p4 \<and> (\<not> p100 \<or> p400)"
    by (simp add: InLeapYear_def p4_def p100_def p400_def)
  have 1: "DayFromYear y = 365 * y - 719050 + A - B + C"
    by (simp add: DayFromYear_def A_def B_def C_def)
  have 2: "DayFromYear (y + 1) = 365 * y - 718685 + A' - B' + C'"
    by (simp add: DayFromYear_def A'_def B'_def C'_def)
  have "DayFromYear (y + 1) - DayFromYear y = 365 + (A' - A) - (B' - B) + (C' - C)"
    unfolding 1 2 by simp
  also have "\<dots> = (if InLeapYear y then 366 else 365)"
    unfolding a b c leap using imp by (cases p4; cases p100; cases p400) simp_all
  finally show ?thesis .
qed

lemma month_of_day:
  assumes "0 \<le> d" and "d < (if InLeapYear y then 366 else 365)"
  shows "0 \<le> monthOfDay (InLeapYear y) d \<and> monthOfDay (InLeapYear y) d \<le> 11 \<and>
         monthStart (InLeapYear y) (monthOfDay (InLeapYear y) d) \<le> d \<and>
         d - monthStart (InLeapYear y) (monthOfDay (InLeapYear y) d) <
           DaysInMonth y (monthOfDay (InLeapYear y) d)"
proof (cases "InLeapYear y")
  case True
  with assms show ?thesis
    by (simp add: monthOfDay_def monthStart_def DaysInMonth_def)
next
  case False
  with assms show ?thesis
    by (simp add: monthOfDay_def monthStart_def DaysInMonth_def)
qed

lemma time_fields:
  assumes "0 \<le> tw" and "tw < 86400000"
  shows "0 \<le> tw div 3600000 \<and> tw div 3600000 \<le> 23 \<and>
         MakeTime (tw div 3600000) (tw div 60000 mod 60) (tw div 1000 mod 60) (tw mod 1000) = tw"
proof -
  define a ms where "a = tw div 1000" and "ms = tw mod 1000"
  define b s where "b = a div 60" and "s = a mod 60"
  define h mi where "h = b div 60" and "mi = b mod 60"
  have 1: "tw = 1000 * a + ms"
    by (simp only: a_def ms_def mult_div_mod_eq)
  have 2: "a = 60 * b + s"
    by (simp only: b_def s_def mult_div_mod_eq)
  have 3: "b = 60 * h + mi"
    by (simp only: h_def mi_def mult_div_mod_eq)
  have "tw div 1000 div 60 = tw div (1000 * 60)"
    by (rule zdiv_zmult2_eq [symmetric]) simp_all
  then have b: "b = tw div 60000"
    by (simp only: a_def b_def)
  have "tw div 60000 div 60 = tw div (60000 * 60)"
    by (rule zdiv_zmult2_eq [symmetric]) simp_all
  then have h: "h = tw div 3600000"
    by (simp only: h_def b)
  have "h * 3600000 + mi * 60000 + s * 1000 + ms = tw"
    using 1 2 3 by linarith
  then have "MakeTime h mi s ms = tw"
    by (simp only: MakeTime_def)
  then have "MakeTime (tw div 3600000) (tw div 60000 mod 60) (tw div 1000 mod 60) (tw mod 1000) = tw"
    by (simp only: h [symmetric] b [symmetric] mi_def s_def a_def ms_def)
  moreover have "0 \<le> tw div 3600000"
    using assms(1) by simp
  moreover have "tw div 3600000 \<le> 23"
    using assms(2) by linarith
  ultimately show ?thesis
    by blast
qed

lemma unat_digit:
  assumes "k < 10"
  shows "unat (digit k) = 48 + k"
proof -
  have "unat (digit k) = (48 + k) mod 2 ^ 16"
    by (simp add: digit_def unat_of_nat del: of_nat_add)
  also have "\<dots> = 48 + k"
    using assms by simp
  finally show ?thesis .
qed

lemma digitValue_digit:
  assumes "k < 10"
  shows "digitValue (digit k) = Some k"
  using assms unat_digit [OF assms] by (simp add: digitValue_def word_le_nat_alt)

lemma digit_not_sign:
  assumes "k < 10"
  shows "digit k \<noteq> 0x2B \<and> digit k \<noteq> 0x2D"
proof -
  have "unat (digit k) \<noteq> unat (0x2B :: 16 word)" "unat (digit k) \<noteq> unat (0x2D :: 16 word)"
    using unat_digit [OF assms] by simp_all
  then show ?thesis
    by auto
qed

lemma parseDigits_append:
  "parseDigits acc (xs @ ys) = Option.bind (parseDigits acc xs) (\<lambda>v. parseDigits v ys)"
  by (induction xs arbitrary: acc) (simp_all split: option.split)

lemma parseDigits_zpad:
  assumes "n < 10 ^ w"
  shows "parseDigits acc (zpad w n) = Some (acc * 10 ^ w + n)"
  using assms
proof (induction w arbitrary: n)
  case 0
  then show ?case by simp
next
  case (Suc w)
  from Suc.prems have "n div 10 < 10 ^ w"
    by (simp add: less_mult_imp_div_less mult.commute)
  from Suc.IH [OF this]
  have "parseDigits acc (zpad (Suc w) n) = Some (10 * (acc * 10 ^ w + n div 10) + n mod 10)"
    by (simp add: parseDigits_append digitValue_digit)
  also have "10 * (acc * 10 ^ w + n div 10) + n mod 10 = acc * 10 ^ Suc w + n"
    by (simp add: algebra_simps)
  finally show ?case .
qed

lemma length_zpad [simp]: "length (zpad w n) = w"
  by (induction w arbitrary: n) simp_all

lemma field_zpad:
  assumes "n < 10 ^ w"
  shows "field w (zpad w n @ rest) = Some (n, rest)"
  using parseDigits_zpad [OF assms, of 0] by (simp add: field_def)

lemma lit_Cons [simp]: "lit c (c # rest) = Some rest"
  by (simp add: lit_def)

lemma zpad_Suc_head:
  assumes "zpad (Suc w) n @ rest = c # r"
  shows "\<exists>k<10. c = digit k"
  using assms
proof (induction w arbitrary: n rest)
  case 0
  then have "c = digit (n mod 10)" by simp
  then show ?case by (intro exI [of _ "n mod 10"]) simp
next
  case (Suc w)
  from Suc.prems have "zpad (Suc w) (n div 10) @ ([digit (n mod 10)] @ rest) = c # r"
    by simp
  then show ?case by (rule Suc.IH)
qed

lemma zpad_head:
  assumes "0 < w" and "zpad w n @ rest = c # r"
  shows "c \<noteq> 0x2B \<and> c \<noteq> 0x2D"
proof -
  from assms(1) obtain w' where "w = Suc w'"
    by (cases w) simp_all
  with assms(2) zpad_Suc_head [of w' n rest c r] obtain k where "k < 10" "c = digit k"
    by auto
  with digit_not_sign show ?thesis
    by simp
qed

lemma parseYear_digits:
  assumes "n < 10 ^ 4"
  shows "parseYear (zpad 4 n @ rest) = Some (int n, rest)"
proof -
  have "length (zpad 4 n @ rest) \<noteq> 0"
    by simp
  then obtain c r where cr: "zpad 4 n @ rest = c # r"
    by (cases "zpad 4 n @ rest") simp_all
  from zpad_head [OF _ this] have c: "c \<noteq> 0x2B" "c \<noteq> 0x2D"
    by simp_all
  then have "parseYear (c # r) = map_option (\<lambda>(n, s1). (int n, s1)) (field 4 (c # r))"
    by (simp add: parseYear_def)
  also have "\<dots> = Some (int n, rest)"
    unfolding cr [symmetric] field_zpad [OF assms] by simp
  finally show ?thesis
    unfolding cr .
qed

lemma parseYear_isoYear:
  assumes "- 1000000 < y" and "y < 1000000"
  shows "parseYear (isoYear y @ rest) = Some (y, rest)"
proof -
  consider "0 \<le> y \<and> y \<le> 9999" | "y < 0" | "9999 < y"
    by linarith
  then show ?thesis
  proof cases
    case 1
    then have "nat y < 10000" by linarith
    then have n: "nat y < 10 ^ 4" by simp
    from 1 parseYear_digits [OF n, of rest] show ?thesis
      by (simp add: isoYear_def)
  next
    case 2
    define m where "m = nat \<bar>y\<bar>"
    with 2 assms have "m < 1000000" "m \<noteq> 0" "- int m = y" by linarith+
    then have n: "m < 10 ^ 6" by simp
    from 2 have "parseYear (isoYear y @ rest) = parseYear (0x2D # zpad 6 m @ rest)"
      by (simp add: isoYear_def m_def)
    also have "\<dots> = Some (y, rest)"
      using \<open>m \<noteq> 0\<close> \<open>- int m = y\<close> by (simp add: parseYear_def field_zpad [OF n])
    finally show ?thesis .
  next
    case 3
    define m where "m = nat \<bar>y\<bar>"
    with 3 assms have "m < 1000000" "int m = y" by linarith+
    then have n: "m < 10 ^ 6" by simp
    from 3 have "parseYear (isoYear y @ rest) = parseYear (0x2B # zpad 6 m @ rest)"
      by (simp add: isoYear_def m_def)
    also have "\<dots> = Some (y, rest)"
      using \<open>int m = y\<close> by (simp add: parseYear_def field_zpad [OF n])
    finally show ?thesis .
  qed
qed

lemma field2_zpad: "n < 100 \<Longrightarrow> field 2 (zpad 2 n @ rest) = Some (n, rest)"
  using field_zpad [of n 2 rest] by simp

lemma field3_zpad: "n < 1000 \<Longrightarrow> field 3 (zpad 3 n @ rest) = Some (n, rest)"
  using field_zpad [of n 3 rest] by simp

lemma parseTail_fields:
  assumes "mo < 100" "dt < 100" "h < 100" "mi < 100" "sec < 100" "ms < 1000"
  shows "parseTail y ([0x2D] @ zpad 2 mo @ [0x2D] @ zpad 2 dt @ [0x54] @ zpad 2 h @ [0x3A] @
           zpad 2 mi @ [0x3A] @ zpad 2 sec @ [0x2E] @ zpad 3 ms @ [0x5A]) =
         (if 1 \<le> mo \<and> mo \<le> 12 \<and> 1 \<le> dt \<and> int dt \<le> DaysInMonth y (int mo - 1) \<and>
             h \<le> 23 \<and> mi \<le> 59 \<and> sec \<le> 59
          then TimeClip (MakeDate (MakeDay y (int mo - 1) (int dt))
                 (MakeTime (int h) (int mi) (int sec) (int ms)))
          else None)"
  using assms by (simp add: parseTail_def field2_zpad field3_zpad)

lemma Day_range:
  assumes "\<bar>t\<bar> \<le> 8640000000000000"
  shows "- 100000000 \<le> Day t \<and> Day t \<le> 100000000"
  using assms unfolding Day_def msPerDay_def by linarith

lemma YearFromDay_range:
  assumes "- 100000000 \<le> d" and "d \<le> 100000000"
  shows "- 1000000 < YearFromDay d \<and> YearFromDay d < 1000000"
proof -
  define y where "y = YearFromDay d"
  from YearFromDay_bounds [of d] have lo: "DayFromYear y \<le> d" and hi: "d < DayFromYear (y + 1)"
    by (simp_all add: y_def)
  have "y < 1000000"
  proof (rule ccontr)
    assume "\<not> y < 1000000"
    define k where "k = y - 1970"
    define L where "L = (k + 1) div 4 - (k + 69) div 100 + (k + 369) div 400"
    from \<open>\<not> y < 1000000\<close> have k: "998030 \<le> k" by (simp add: k_def)
    then have "0 \<le> k" by simp
    from leap_days_nonneg [OF this] have "0 \<le> L" by (simp add: L_def)
    moreover have "DayFromYear y = 365 * k + L"
      using DayFromYear_1970 [of k] by (simp add: k_def L_def)
    ultimately show False
      using lo k assms(2) by linarith
  qed
  moreover have "- 1000000 < y"
  proof (rule ccontr)
    assume "\<not> - 1000000 < y"
    define k where "k = y - 1969"
    define L where "L = (k + 1) div 4 - (k + 69) div 100 + (k + 369) div 400"
    from \<open>\<not> - 1000000 < y\<close> have k: "k \<le> - 1001969" by (simp add: k_def)
    then have "k < 0" by simp
    from leap_days_nonpos [OF this] have "L \<le> 0" by (simp add: L_def)
    moreover have "DayFromYear (y + 1) = 365 * k + L"
      using DayFromYear_1970 [of k] by (simp add: k_def L_def algebra_simps)
    ultimately show False
      using hi k assms(1) by linarith
  qed
  ultimately show ?thesis
    by (simp add: y_def)
qed

lemma DaysInMonth_le: "DaysInMonth y m \<le> 31"
  by (simp add: DaysInMonth_def)

text \<open>
  Every valid time value is read back from its ISO text: \<open>Date.parse\<close> inverts
  \<open>toISOString\<close> on the whole range of \<open>Date\<close>.
\<close>

lemma Date_parse_toISOString:
  assumes "\<bar>t\<bar> \<le> 8640000000000000"
  shows "Date_parse (toISOString t) = Some t"
proof -
  define y where "y = YearFromTime t"
  define dwy where "dwy = DayWithinYear t"
  define m where "m = MonthFromTime t"
  define dt where "dt = DateFromTime t"
  define tw where "tw = TimeWithinDay t"
  have m_eq: "m = monthOfDay (InLeapYear y) dwy"
    by (simp add: m_def MonthFromTime_def y_def dwy_def)
  have dt_eq: "dt = dwy - monthStart (InLeapYear y) m + 1"
    by (simp add: dt_def DateFromTime_def y_def dwy_def m_def)
  have dwy_eq: "dwy = Day t - DayFromYear y"
    by (simp add: dwy_def DayWithinYear_def y_def)
  from Day_range [OF assms] YearFromDay_range [of "Day t"]
  have y_range: "- 1000000 < y" "y < 1000000"
    by (simp_all add: y_def YearFromTime_def)
  from YearFromDay_bounds [of "Day t"]
  have "DayFromYear y \<le> Day t" "Day t < DayFromYear (y + 1)"
    by (simp_all add: y_def YearFromTime_def)
  with year_length [of y] have dwy_range: "0 \<le> dwy" "dwy < (if InLeapYear y then 366 else 365)"
    unfolding dwy_eq by (simp_all split: if_splits)
  from month_of_day [OF dwy_range]
  have m_range: "0 \<le> m" "m \<le> 11" and "monthStart (InLeapYear y) m \<le> dwy"
    and "dwy - monthStart (InLeapYear y) m < DaysInMonth y m"
    by (simp_all add: m_eq)
  then have dt_range: "1 \<le> dt" "dt \<le> DaysInMonth y m"
    by (simp_all add: dt_eq)
  with DaysInMonth_le [of y m] have dt31: "dt \<le> 31"
    by linarith
  have tw_range: "0 \<le> tw" "tw < 86400000"
    by (simp_all add: tw_def TimeWithinDay_def msPerDay_def)
  from time_fields [OF tw_range]
  have h_range: "0 \<le> tw div 3600000" "tw div 3600000 \<le> 23"
    and time: "MakeTime (tw div 3600000) (tw div 60000 mod 60) (tw div 1000 mod 60) (tw mod 1000) = tw"
    by simp_all
  define mo' dt' h' mi' sec' ms' where "mo' = nat (m + 1)" and "dt' = nat dt"
    and "h' = nat (tw div 3600000)" and "mi' = nat (tw div 60000 mod 60)"
    and "sec' = nat (tw div 1000 mod 60)" and "ms' = nat (tw mod 1000)"
  have ints: "int mo' = m + 1" "int dt' = dt" "int h' = tw div 3600000"
    "int mi' = tw div 60000 mod 60" "int sec' = tw div 1000 mod 60" "int ms' = tw mod 1000"
    using m_range dt_range h_range
    by (simp_all add: mo'_def dt'_def h'_def mi'_def sec'_def ms'_def)
  have "mi' < 60" "sec' < 60" "ms' < 1000"
    by (simp_all add: mi'_def sec'_def ms'_def nat_less_iff)
  moreover have "mo' \<le> 12" "1 \<le> mo'" "1 \<le> dt'" "dt' \<le> 31" "h' \<le> 23"
    using m_range dt_range dt31 h_range
    by (simp_all add: mo'_def dt'_def h'_def nat_le_iff le_nat_iff)
  ultimately have small: "mo' < 100" "dt' < 100" "h' < 100" "mi' < 100" "sec' < 100" "ms' < 1000"
    and ranges: "1 \<le> mo'" "mo' \<le> 12" "1 \<le> dt'" "h' \<le> 23" "mi' \<le> 59" "sec' \<le> 59"
    by simp_all
  have iso: "toISOString t =
      isoYear y @ ([0x2D] @ zpad 2 mo' @ [0x2D] @ zpad 2 dt' @ [0x54] @ zpad 2 h' @ [0x3A] @
        zpad 2 mi' @ [0x3A] @ zpad 2 sec' @ [0x2E] @ zpad 3 ms' @ [0x5A])"
    by (simp add: toISOString_def y_def m_def dt_def mo'_def dt'_def h'_def mi'_def sec'_def
        ms'_def HourFromTime_def MinFromTime_def SecFromTime_def msFromTime_def tw_def)
  have day: "MakeDay y (int mo' - 1) (int dt') = Day t"
    by (simp add: MakeDay_def ints dt_eq dwy_eq)
  have clock: "MakeTime (int h') (int mi') (int sec') (int ms') = tw"
    by (simp only: ints time)
  have "MakeDate (Day t) tw = t"
    by (simp add: MakeDate_def Day_def tw_def TimeWithinDay_def)
  with assms have clip: "TimeClip (MakeDate (Day t) tw) = Some t"
    by (simp add: TimeClip_def)
  have dim: "int dt' \<le> DaysInMonth y (int mo' - 1)"
    using dt_range by (simp add: ints)
  have "Date_parse (toISOString t) =
      parseTail y ([0x2D] @ zpad 2 mo' @ [0x2D] @ zpad 2 dt' @ [0x54] @ zpad 2 h' @ [0x3A] @
        zpad 2 mi' @ [0x3A] @ zpad 2 sec' @ [0x2E] @ zpad 3 ms' @ [0x5A])"
    unfolding iso Date_parse_def parseYear_isoYear [OF y_range] by simp
  also have "\<dots> = TimeClip (MakeDate (MakeDay y (int mo' - 1) (int dt'))
                 (MakeTime (int h') (int mi') (int sec') (int ms')))"
    unfolding parseTail_fields [OF small] using ranges dim by simp
  also have "\<dots> = Some t"
    unfolding day clock by (rule clip)
  finally show ?thesis .
qed

section \<open>Facts about the setters and \<open>updateChat\<close>\<close>

lemma react_setChats [simp]:
  "react (setChats f w) = (react w)\<lparr>chats := f (chats (react w))\<rparr>"
  by (simp add: setChats_def saveChats_def Let_def)

lemma react_setActiveChat [simp]: "react (setActiveChat c w) = (react w)\<lparr>activeChat := c\<rparr>"
  by (simp add: setActiveChat_def)

lemma react_setLoading [simp]: "react (setLoading b w) = (react w)\<lparr>loading := b\<rparr>"
  by (simp add: setLoading_def)

lemma react_setError [simp]: "react (setError e w) = (react w)\<lparr>error := e\<rparr>"
  by (simp add: setError_def)

lemma react_setUserInput [simp]: "react (setUserInput s w) = (react w)\<lparr>userInput := s\<rparr>"
  by (simp add: setUserInput_def)

lemma react_fetch [simp]: "react (fetch body w) = react w"
  by (simp add: fetch_def)

lemma react_handleError [simp]: "react (handleError e w) = react w"
  by (simp add: handleError_def)

lemma chat_id_updatedChat [simp]: "chat_id (updatedChat chat msgs) = chat_id chat"
  by (simp add: updatedChat_def)

lemma messages_updatedChat [simp]: "messages (updatedChat chat msgs) = msgs"
  by (simp add: updatedChat_def)

lemma createdAt_updatedChat [simp]: "createdAt (updatedChat chat msgs) = createdAt chat"
  by (simp add: updatedChat_def)

lemma find_updated:
  "find (\<lambda>chat. chat_id chat = chatId)
     (map (\<lambda>chat. if chat_id chat = chatId then updatedChat chat msgs else chat) cs) =
   map_option (\<lambda>chat. updatedChat chat msgs) (find (\<lambda>chat. chat_id chat = chatId) cs)"
  by (induction cs) simp_all

lemma chats_updateChat:
  "chats (react (updateChat r chatId msgs w)) =
   map (\<lambda>chat. if chat_id chat = chatId then updatedChat chat msgs else chat) (chats r)"
  by (simp add: updateChat_def Let_def split: option.split)

lemma activeChat_updateChat:
  "activeChat (react (updateChat r chatId msgs w)) =
   (case find (\<lambda>chat. chat_id chat = chatId) (chats r) of
      None \<Rightarrow> activeChat (react w)
    | Some chat \<Rightarrow> Some (updatedChat chat msgs))"
  by (simp add: updateChat_def Let_def find_updated split: option.split)

lemma trim_whitespace:
  assumes "\<forall>c\<in>set s. isWhiteSpace c"
  shows "trim s = []"
proof -
  from assms have blank: "dropWhile isWhiteSpace s = []"
    by simp
  show ?thesis
    unfolding trim_def blank by simp
qed

lemma js_eq_Nil [simp]: "js s = [] \<longleftrightarrow> s = []"
  by (simp add: js_def)

lemma trim_Hello: "trim (js ''Hello'') = js ''Hello''"
  by (simp add: trim_def js_def isWhiteSpace_def)

lemma chats_sendMessage_active:
  assumes "activeChat r = Some a" and "trim (userInput r) \<noteq> []"
  shows "chats (react (fst (sendMessage r now1 now2 w))) =
         map (\<lambda>chat. if chat_id chat = chat_id a
                      then updatedChat chat
                             (messages a @ [\<lparr>role = user, content = userInput r,
                                             timestamp = Some (DateObj (Some now1))\<rparr>])
                      else chat) (chats r)"
  using assms by (simp add: sendMessage_def Let_def chats_updateChat)

lemma ids_differ: "chat_id chatA \<noteq> chat_id chatB"
  by (simp add: chatA_def chatB_def js_def)

section \<open>Creating a chat\<close>

text \<open>
  C7. \<open>createNewChat\<close> has no failing branch: from every state of the render and of
  React it yields a chat with no messages and the title \<open>New Chat N\<close>, \<open>N\<close> one more
  than the number of chats the render saw, puts it after all chats of the list and
  makes it the active chat.
\<close>

theorem createNewChat_appends_and_activates:
  "\<exists>newChat.
     chats (react (createNewChat r now1 now2 w)) = chats (react w) @ [newChat] \<and>
     activeChat (react (createNewChat r now1 now2 w)) = Some newChat \<and>
     messages newChat = [] \<and>
     title newChat = js ''New Chat '' @ Number_toString (int (length (chats r) + 1)) \<and>
     chat_id newChat = Number_toString now1 \<and>
     createdAt newChat = DateObj (Some now2)"
  by (simp add: createNewChat_def Let_def)

section \<open>Replacing the messages of a chat\<close>

text \<open>
  \<open>updateChat\<close>, called by a handler of the current render, keeps the number and the
  order of the chats, and every chat whose id is not the given one stays as it was, with
  its id, title, messages and creation date. So does a send: with a chat selected,
  \<open>sendMessage\<close> changes no chat with another id.
\<close>

lemma updateChat_frame_current:
  assumes "chats r = chats (react w)"
  shows "length (chats (react (updateChat r chatId msgs w))) = length (chats (react w)) \<and>
         (\<forall>i<length (chats (react w)).
            chat_id (chats (react w) ! i) \<noteq> chatId \<longrightarrow>
            chats (react (updateChat r chatId msgs w)) ! i = chats (react w) ! i) \<and>
         (\<forall>a i. activeChat r = Some a \<and> i < length (chats (react w)) \<and>
            chat_id (chats (react w) ! i) \<noteq> chat_id a \<longrightarrow>
            chats (react (fst (sendMessage r now1 now2 w))) ! i = chats (react w) ! i)"
proof -
  have "chats (react (fst (sendMessage r now1 now2 w))) ! i = chats (react w) ! i"
    if "activeChat r = Some a" and "i < length (chats (react w))"
      and "chat_id (chats (react w) ! i) \<noteq> chat_id a" for a i
  proof (cases "trim (userInput r) = []")
    case True
    then show ?thesis by (simp add: sendMessage_def)
  next
    case False
    from chats_sendMessage_active [OF that(1) False] that(2,3) assms show ?thesis
      by simp
  qed
  with assms show ?thesis
    by (simp add: chats_updateChat)
qed



section \<open>Submitting blank input\<close>

text \<open>
  C10. When the input of the render is empty or has only white space, \<open>sendMessage\<close>
  returns at once: the world (the chats, the active chat, the stored entry, the
  requests sent) is the one before, and no later stage is left behind.
\<close>

theorem sendMessage_blank:
  assumes "\<forall>c\<in>set (userInput r). isWhiteSpace c"
  shows "sendMessage r now1 now2 w = (w, None)"
  using assms by (simp add: sendMessage_def trim_whitespace)

theorem sendMessage_blank_witness:
  "userInput (react world_blank) = [0x20, 0x09, 0xA0] \<and>
   isWhiteSpace 0x20 \<and> isWhiteSpace 0x09 \<and> isWhiteSpace 0xA0 \<and>
   sendMessage (react world_blank) 1700000180000 1700000180000 world_blank = (world_blank, None)"
proof -
  have input: "userInput (react world_blank) = [0x20, 0x09, 0xA0]"
    by (simp add: world_blank_def)
  have blank: "\<forall>c\<in>set (userInput (react world_blank)). isWhiteSpace c"
    by (simp add: input isWhiteSpace_def)
  from input sendMessage_blank [OF blank] show ?thesis
    by (simp add: isWhiteSpace_def)
qed

section \<open>Assembling the streamed response\<close>

lemma run_stream_Nil [simp]: "run_stream [] rw = rw"
  by (simp add: run_stream_def)

lemma run_stream_append: "run_stream (es @ fs) rw = run_stream fs (run_stream es rw)"
  by (simp add: run_stream_def)

lemma content_events_snoc:
  "run_stream (content_events (ds @ [(delta, now)])) rw =
   on_content delta now (run_stream (content_events ds) rw)"
  by (simp add: content_events_def run_stream_append) (simp add: run_stream_def)

lemma runner_on_content:
  "fst (on_content delta now rw) = (fst rw)\<lparr>rickResponse := rickResponse (fst rw) @ delta\<rparr>"
  by (simp add: on_content_def Let_def)

lemma runner_after_deltas:
  "fst (run_stream (content_events ds) rw) =
   (fst rw)\<lparr>rickResponse := rickResponse (fst rw) @ concat (map fst ds)\<rparr>"
proof (induction ds rule: rev_induct)
  case Nil
  then show ?case by (simp add: content_events_def)
next
  case (snoc x ds)
  obtain delta now where x: "x = (delta, now)" by (cases x)
  show ?case
    unfolding x content_events_snoc runner_on_content snoc.IH by simp
qed

lemma world_on_content:
  "snd (on_content delta now rw) =
   updateChat (render (closure (fst rw))) (chat_id (active (closure (fst rw))))
     (updatedMessages (closure (fst rw)) @
      [\<lparr>role = assistant, content = rickResponse (fst rw) @ delta,
        timestamp = Some (DateObj (Some now))\<rparr>]) (snd rw)"
  by (simp add: on_content_def Let_def)

lemma world_after_deltas:
  assumes "ds \<noteq> []"
  shows "snd (run_stream (content_events ds) (rn, w)) =
         updateChat (render (closure rn)) (chat_id (active (closure rn)))
           (updatedMessages (closure rn) @
            [\<lparr>role = assistant, content = rickResponse rn @ concat (map fst ds),
              timestamp = Some (DateObj (Some (snd (last ds))))\<rparr>])
           (snd (run_stream (content_events (butlast ds)) (rn, w)))"
proof -
  from assms obtain delta now where ds: "ds = butlast ds @ [(delta, now)]"
    by (metis append_butlast_last_id surj_pair)
  have "snd (run_stream (content_events (butlast ds @ [(delta, now)])) (rn, w)) =
        updateChat (render (closure rn)) (chat_id (active (closure rn)))
           (updatedMessages (closure rn) @
            [\<lparr>role = assistant, content = rickResponse rn @ concat (map fst (butlast ds @ [(delta, now)])),
              timestamp = Some (DateObj (Some now))\<rparr>])
           (snd (run_stream (content_events (butlast ds)) (rn, w)))"
    unfolding content_events_snoc world_on_content runner_after_deltas by simp
  moreover have "snd (last ds) = now"
    by (subst ds) simp
  ultimately show ?thesis
    using ds by simp
qed

text \<open>
  C1. A send from a render whose active chat \<open>a\<close> is in the list leaves a closure; once
  the request has succeeded, after the \<open>k\<close>-th delta of the stream (whatever happened to
  the world in between) the active chat and the entry of the list with the id of \<open>a\<close> are
  the same chat, whose messages are those of \<open>a\<close>, the user's message, and one assistant
  message with the first \<open>k\<close> deltas concatenated in order of arrival. With \<open>k\<close> the
  number of deltas this is the whole response, however it was cut into deltas. (That the
  active chat is in the list holds in every state the page reaches: lemma
  \<open>active_chat_is_listed\<close> below.)
\<close>

theorem stream_assembles:
  assumes send: "sendMessage r now1 now2 w = (w1, Some c)"
    and settled: "sendMessage_settled c outcome w2 = (w3, Some rn)"
    and active: "activeChat r = Some a"
    and listed: "a \<in> set (chats r)"
    and k: "0 < k" "k \<le> length ds"
  shows "\<exists>a'. activeChat (react (snd (run_stream (content_events (take k ds)) (rn, w4)))) = Some a' \<and>
           find (\<lambda>chat. chat_id chat = chat_id a)
             (chats (react (snd (run_stream (content_events (take k ds)) (rn, w4))))) = Some a' \<and>
           chat_id a' = chat_id a \<and>
           messages a' =
             messages a @
             [\<lparr>role = user, content = userInput r, timestamp = Some (DateObj (Some now1))\<rparr>,
              \<lparr>role = assistant, content = concat (map fst (take k ds)),
               timestamp = Some (DateObj (Some (snd (ds ! (k - 1)))))\<rparr>]"
proof -
  from send active have c: "c = \<lparr>render = r, active = a, updatedMessages = messages a @
      [\<lparr>role = user, content = userInput r, timestamp = Some (DateObj (Some now1))\<rparr>]\<rparr>"
    by (auto simp: sendMessage_def Let_def split: if_splits)
  from settled have rn: "rn = \<lparr>closure = c, rickResponse = []\<rparr>"
    by (auto simp: sendMessage_settled_def split: FetchOutcome.splits if_splits)
  from listed obtain ch where ch: "find (\<lambda>chat. chat_id chat = chat_id a) (chats r) = Some ch"
    by (cases "find (\<lambda>chat. chat_id chat = chat_id a) (chats r)") (auto simp: find_None_iff)
  then have id: "chat_id ch = chat_id a"
    by (auto simp: find_Some_iff)
  from k have ne: "take k ds \<noteq> []"
    by auto
  from k ne have "last (take k ds) = take k ds ! (k - 1)"
    by (simp add: last_conv_nth min_def)
  with k have lst: "last (take k ds) = ds ! (k - 1)"
    by simp
  show ?thesis
    unfolding world_after_deltas [OF ne] lst
    by (simp add: activeChat_updateChat chats_updateChat find_updated rn c ch id)
qed

lemma send_hello:
  "sendMessage (react world_hello) 1700000120000 1700000120000 world_hello =
   (fst (sendMessage (react world_hello) 1700000120000 1700000120000 world_hello),
    Some closure_hello)"
proof -
  have "snd (sendMessage (react world_hello) 1700000120000 1700000120000 world_hello) =
        Some closure_hello"
    by (simp add: sendMessage_def world_hello_def world_two_def initialState_def trim_Hello
        closure_hello_def chatB_def Let_def)
  then show ?thesis
    by (simp add: prod_eq_iff)
qed

theorem stream_assembles_witness:
  "map_option messages
     (activeChat (react (snd (run_stream
        (content_events (take 2 [(js ''Wub'', 1700000121000), (js ''ba'', 1700000121500)]))
        (\<lparr>closure = closure_hello, rickResponse = []\<rparr>, world_hello))))) =
   Some [\<lparr>role = user, content = js ''Hello'', timestamp = Some (DateObj (Some 1700000120000))\<rparr>,
         \<lparr>role = assistant, content = js ''Wubba'',
          timestamp = Some (DateObj (Some 1700000121500))\<rparr>]"
proof -
  have settled: "sendMessage_settled closure_hello (Responded 200) world_hello =
      (setLoading False world_hello, Some \<lparr>closure = closure_hello, rickResponse = []\<rparr>)"
    by (simp add: sendMessage_settled_def ok_def)
  have active: "activeChat (react world_hello) = Some chatB"
    by (simp add: world_hello_def world_two_def)
  have listed: "chatB \<in> set (chats (react world_hello))"
    by (simp add: world_hello_def world_two_def)
  have k: "0 < (2::nat)" "2 \<le> length [(js ''Wub'', 1700000121000::int), (js ''ba'', 1700000121500)]"
    by simp_all
  from stream_assembles [OF send_hello settled active listed k, of world_hello]
  show ?thesis
    by (auto simp: world_hello_def chatB_def js_def)
qed

section \<open>The scenario of the first message\<close>

lemma react_mount_empty: "react (mount emptyWorld) = initialState"
  by (simp add: mount_def emptyWorld_def saveChats_def Let_def)

lemma title_New_Chat_1: "js ''New Chat '' @ Number_toString 1 = js ''New Chat 1''"
  by (simp add: Number_toString_def digits.simps digit_def js_def)

lemma slice_Hello: "slice0 30 (js ''Hello'') = js ''Hello''"
  by (simp add: slice0_def js_def)



section \<open>The title of a chat\<close>

lemma slice0_eq_Nil [simp]: "slice0 30 s = [] \<longleftrightarrow> s = []"
  by (simp add: slice0_def)

lemma titled_updatedChat [simp]: "titled (updatedChat chat msgs)"
  by (cases msgs) (simp_all add: titled_def updatedChat_def or_else_def)

lemma titled_state_updateChat:
  assumes "titled_state r" and "titled_state (react w)"
  shows "titled_state (react (updateChat r chatId msgs w))"
proof -
  from assms(1) have "list_all titled (chats (react (updateChat r chatId msgs w)))"
    by (auto simp: chats_updateChat titled_state_def list_all_iff)
  moreover from assms(2)
  have "case activeChat (react (updateChat r chatId msgs w)) of None \<Rightarrow> True | Some a \<Rightarrow> titled a"
    by (simp add: activeChat_updateChat titled_state_def split: option.splits)
  ultimately show ?thesis
    by (simp add: titled_state_def)
qed

lemma titled_state_createNewChat:
  assumes "titled_state (react w)"
  shows "titled_state (react (createNewChat r now1 now2 w))"
  using assms by (simp add: createNewChat_def Let_def titled_state_def titled_def)

lemma titled_state_selectChat:
  assumes "titled_state r" and "titled_state (react w)"
  shows "titled_state (react (selectChat r i w))"
  using assms by (simp add: selectChat_def titled_state_def list_all_length)

lemma titled_state_sendMessage:
  assumes "titled_state r" and "titled_state (react w)"
  shows "titled_state (react (fst (sendMessage r now1 now2 w)))"
proof (cases "trim (userInput r) = []")
  case True
  with assms show ?thesis by (simp add: sendMessage_def)
next
  case False
  show ?thesis
  proof (cases "activeChat r")
    case None
    with False assms show ?thesis
      by (simp add: sendMessage_def titled_state_createNewChat)
  next
    case (Some a)
    have "titled_state (react (setError None (setLoading True w)))"
      using assms(2) by (simp add: titled_state_def)
    from titled_state_updateChat [OF assms(1) this]
    show ?thesis
      using False Some by (simp add: sendMessage_def Let_def titled_state_def)
  qed
qed

lemma closure_sendMessage:
  assumes "sendMessage r now1 now2 w = (w', Some c)"
  shows "render c = r"
  using assms by (auto simp: sendMessage_def Let_def split: if_splits option.splits)

lemma react_sendMessage_settled:
  "titled_state (react (fst (sendMessage_settled c outcome w))) = titled_state (react w)"
  by (simp add: sendMessage_settled_def titled_state_def split: FetchOutcome.splits)

lemma runner_sendMessage_settled:
  assumes "sendMessage_settled c outcome w = (w', Some rn)"
  shows "closure rn = c"
  using assms by (auto simp: sendMessage_settled_def split: FetchOutcome.splits if_splits)

lemma closure_emit: "closure (fst (emit (ev, now) (rn, w))) = closure rn"
  by (cases ev) (simp_all add: on_content_def Let_def)

lemma titled_state_emit:
  assumes "titled_state (render (closure rn))" and "titled_state (react w)"
  shows "titled_state (react (snd (emit (ev, now) (rn, w))))"
  using assms by (cases ev) (simp_all add: on_content_def Let_def titled_state_updateChat)

lemma titled_system_step:
  assumes "titled_system s"
  shows "titled_system (step e s)"
proof (cases e)
  case (Typed input)
  with assms show ?thesis
    by (simp add: titled_system_def titled_state_def)
next
  case (NewChatClicked now1 now2)
  with assms show ?thesis
    by (simp add: titled_system_def titled_state_createNewChat)
next
  case (ChatClicked i)
  with assms show ?thesis
    by (simp add: titled_system_def titled_state_selectChat)
next
  case (Submitted now1 now2)
  obtain w c where sent: "sendMessage (react (world s)) now1 now2 (world s) = (w, c)"
    by (cases "sendMessage (react (world s)) now1 now2 (world s)")
  from assms have st: "titled_state (react (world s))"
    by (simp add: titled_system_def)
  from titled_state_sendMessage [OF st st, of now1 now2] sent have w: "titled_state (react w)"
    by simp
  show ?thesis
  proof (cases c)
    case None
    with Submitted sent w assms show ?thesis
      by (simp add: titled_system_def)
  next
    case (Some cl)
    with sent have "render cl = react (world s)"
      by (simp add: closure_sendMessage)
    with Some Submitted sent w st assms show ?thesis
      by (simp add: titled_system_def)
  qed
next
  case (Settled i outcome)
  show ?thesis
  proof (cases "i < length (awaiting s)")
    case False
    with Settled assms show ?thesis by simp
  next
    case True
    obtain w rn where settled: "sendMessage_settled (awaiting s ! i) outcome (world s) = (w, rn)"
      by (cases "sendMessage_settled (awaiting s ! i) outcome (world s)")
    from react_sendMessage_settled [of "awaiting s ! i" outcome "world s"] settled assms
    have w: "titled_state (react w)"
      by (simp add: titled_system_def)
    from assms have aw: "list_all (\<lambda>c. titled_state (render c)) (awaiting s)"
      by (simp add: titled_system_def)
    then have rest: "list_all (\<lambda>c. titled_state (render c))
        (take i (awaiting s) @ drop (Suc i) (awaiting s))"
      by (auto simp: list_all_iff dest: in_set_takeD in_set_dropD)
    from aw True have ith: "titled_state (render (awaiting s ! i))"
      by (simp add: list_all_length)
    show ?thesis
    proof (cases rn)
      case None
      with Settled True settled w rest assms show ?thesis
        by (simp add: titled_system_def)
    next
      case (Some r)
      with settled have "closure r = awaiting s ! i"
        by (simp add: runner_sendMessage_settled)
      with Some Settled True settled w rest ith assms show ?thesis
        by (simp add: titled_system_def)
    qed
  qed
next
  case (Emitted i ev now)
  show ?thesis
  proof (cases "i < length (runners s)")
    case False
    with Emitted assms show ?thesis by simp
  next
    case True
    obtain rn w where emitted: "emit (ev, now) (runners s ! i, world s) = (rn, w)"
      by (cases "emit (ev, now) (runners s ! i, world s)")
    from assms have rs: "list_all (\<lambda>rn. titled_state (render (closure rn))) (runners s)"
      by (simp add: titled_system_def)
    with True have ith: "titled_state (render (closure (runners s ! i)))"
      by (simp add: list_all_length)
    from assms have st: "titled_state (react (world s))"
      by (simp add: titled_system_def)
    from titled_state_emit [OF ith st, of ev now] emitted have w: "titled_state (react w)"
      by simp
    from closure_emit [of ev now "runners s ! i" "world s"] emitted
    have "closure rn = closure (runners s ! i)"
      by simp
    with ith have "titled_state (render (closure rn))"
      by simp
    with rs have "list_all (\<lambda>rn. titled_state (render (closure rn))) ((runners s)[i := rn])"
      by (auto simp: list_all_iff dest!: set_update_subset_insert [THEN subsetD])
    with Emitted True emitted w assms show ?thesis
      by (simp add: titled_system_def)
  qed
qed

lemma titled_system_run:
  assumes "titled_system s"
  shows "titled_system (run es s)"
  using assms unfolding run_def
  by (induction es arbitrary: s) (simp_all add: titled_system_step)

lemma titled_system_start: "titled_system start"
  by (simp add: titled_system_def start_def react_mount_empty titled_state_def initialState_def)

lemma title_updateChat_tail:
  "map title (chats (react (updateChat r chatId (m # ms) w))) =
   map title (chats (react (updateChat r chatId (m # ms') w)))"
  by (simp add: chats_updateChat updatedChat_def)

text \<open>
  From a titled system (the page as mounted is one), after any events, in any order:
  every chat of the list whose first message has content that is not empty is titled
  with the first 30 code units of that content. And \<open>updateChat\<close> computes the titles
  from the first message alone: what follows the first message, appended or replaced,
  does not change them.
\<close>

lemma title_of_first_message:
  assumes "titled_system s"
  shows "(\<forall>c\<in>set (chats (react (world (run es s)))). \<forall>m ms.
            messages c = m # ms \<and> content m \<noteq> [] \<longrightarrow> title c = slice0 30 (content m)) \<and>
         map title (chats (react (updateChat r chatId (m # ms) w))) =
         map title (chats (react (updateChat r chatId (m # ms') w)))"
proof -
  from titled_system_run [OF assms, of es]
  have "list_all titled (chats (react (world (run es s))))"
    by (simp add: titled_system_def titled_state_def)
  then have "\<forall>c\<in>set (chats (react (world (run es s)))). \<forall>m ms.
            messages c = m # ms \<and> content m \<noteq> [] \<longrightarrow> title c = slice0 30 (content m)"
    by (auto simp: list_all_iff titled_def)
  then show ?thesis
    by (simp add: title_updateChat_tail)
qed


section \<open>A delta that arrives after the list has changed\<close>

text \<open>
  \<open>updateChat\<close> maps over the chats of the render that created the handler and writes
  the result back as the whole list, where \<open>createNewChat\<close> updates the list React
  holds. For the listener of a stream that render is the one of the send, however long
  ago: what the list has got since is undone by the next delta.
\<close>

lemma stale_ids:
  "Number_toString 1700000000000 \<noteq> Number_toString 1700000001000"
  "Number_toString 1700000001000 \<noteq> Number_toString 1700000000000"
  by (simp_all add: Number_toString_def digits.simps digit_def)

lemma title_New_Chat_2: "js ''New Chat '' @ Number_toString 2 = js ''New Chat 2''"
  by (simp add: Number_toString_def digits.simps digit_def js_def)

lemma stale_texts:
  "trim (js ''x'') = js ''x''" "trim (js ''one'') = js ''one''" "trim (js ''two'') = js ''two''"
  "slice0 30 (js ''x'') = js ''x''" "slice0 30 (js ''one'') = js ''one''"
  "slice0 30 (js ''two'') = js ''two''"
  by (simp_all add: trim_def isWhiteSpace_def slice0_def js_def)

lemma stale_run:
  "map chat_id (chats (react (world (run (take 8 stale_events) start)))) =
     [Number_toString 1700000000000, Number_toString 1700000001000] \<and>
   map title (chats (react (world (run (take 8 stale_events) start)))) = [js ''one'', js ''x''] \<and>
   map (map content \<circ> messages) (chats (react (world (run (take 8 stale_events) start)))) =
     [[js ''one''], [js ''x'']] \<and>
   map_option chat_id (activeChat (react (world (run (take 8 stale_events) start)))) =
     Some (Number_toString 1700000000000) \<and>
   map chat_id (chats (react (world (run (take 9 stale_events) start)))) =
     [Number_toString 1700000000000, Number_toString 1700000001000] \<and>
   map title (chats (react (world (run (take 9 stale_events) start)))) =
     [js ''New Chat 1'', js ''x''] \<and>
   map (map content \<circ> messages) (chats (react (world (run (take 9 stale_events) start)))) =
     [[], [js ''x'', js ''d'']] \<and>
   map_option chat_id (activeChat (react (world (run (take 9 stale_events) start)))) =
     Some (Number_toString 1700000001000) \<and>
   map title (chats (react (world (run stale_events start)))) = [js ''two'', js ''x''] \<and>
   map (map content \<circ> messages) (chats (react (world (run stale_events start)))) =
     [[js ''two''], [js ''x'', js ''d'']]"
  by (simp add: stale_events_def run_def start_def react_mount_empty sendMessage_def
      initialState_def createNewChat_def Let_def updateChat_def updatedChat_def or_else_def
      sendMessage_settled_def ok_def on_content_def selectChat_def
      stale_ids stale_texts title_New_Chat_1 title_New_Chat_2)

lemma stale_call:
  "chats (react (world (run (take 9 stale_events) start))) =
   chats (react (updateChat (react (world (run (take 3 stale_events) start)))
     (Number_toString 1700000001000)
     [\<lparr>role = user, content = js ''x'', timestamp = Some (DateObj (Some 1700000002000))\<rparr>,
      \<lparr>role = assistant, content = js ''d'', timestamp = Some (DateObj (Some 1700000004000))\<rparr>]
     (world (run (take 8 stale_events) start))))"
  by (simp add: stale_events_def run_def start_def react_mount_empty sendMessage_def
      initialState_def createNewChat_def Let_def updateChat_def updatedChat_def or_else_def
      sendMessage_settled_def ok_def on_content_def selectChat_def
      stale_ids stale_texts title_New_Chat_1 title_New_Chat_2)

text \<open>
  C5. The listener of a stream calls the \<open>updateChat\<close> of the render that sent the
  message, and \<open>updateChat\<close> writes back the list that render saw. In \<open>stale_events\<close>
  the ninth event is such a call for the second chat. It replaces the messages of the
  second chat, and the first chat, whose id is another, loses the message \<open>one\<close> that
  it had got since that render.
\<close>

theorem stale_delta_resets_other_chat:
  "map chat_id (chats (react (world (run (take 8 stale_events) start)))) =
     [Number_toString 1700000000000, Number_toString 1700000001000] \<and>
   Number_toString 1700000000000 \<noteq> Number_toString 1700000001000 \<and>
   map (map content \<circ> messages) (chats (react (world (run (take 8 stale_events) start)))) =
     [[js ''one''], [js ''x'']] \<and>
   chats (react (world (run (take 9 stale_events) start))) =
     chats (react (updateChat (react (world (run (take 3 stale_events) start)))
       (Number_toString 1700000001000)
       [\<lparr>role = user, content = js ''x'', timestamp = Some (DateObj (Some 1700000002000))\<rparr>,
        \<lparr>role = assistant, content = js ''d'',
         timestamp = Some (DateObj (Some 1700000004000))\<rparr>]
       (world (run (take 8 stale_events) start)))) \<and>
   map chat_id (chats (react (world (run (take 9 stale_events) start)))) =
     [Number_toString 1700000000000, Number_toString 1700000001000] \<and>
   map (map content \<circ> messages) (chats (react (world (run (take 9 stale_events) start)))) =
     [[], [js ''x'', js ''d'']]"
  using stale_run stale_call stale_ids by simp

text \<open>
  C4. In the same trace the first chat has the first message \<open>one\<close> and the title \<open>one\<close>
  after the eighth event. The delta of the other chat's stream makes it the chat of
  the stale render again, with no message and the title \<open>New Chat 1\<close>; the next message
  sent in it titles it \<open>two\<close>.
\<close>

theorem stale_delta_changes_title:
  "map (map content \<circ> messages) (chats (react (world (run (take 8 stale_events) start)))) =
     [[js ''one''], [js ''x'']] \<and>
   map title (chats (react (world (run (take 8 stale_events) start)))) = [js ''one'', js ''x''] \<and>
   map title (chats (react (world (run (take 9 stale_events) start)))) =
     [js ''New Chat 1'', js ''x''] \<and>
   map title (chats (react (world (run stale_events start)))) = [js ''two'', js ''x''] \<and>
   map chat_id (chats (react (world (run (take 9 stale_events) start)))) =
     map chat_id (chats (react (world (run (take 8 stale_events) start)))) \<and>
   js ''one'' \<noteq> js ''New Chat 1'' \<and> js ''one'' \<noteq> js ''two''"
  using stale_run by (simp add: js_def)

section \<open>Failures of the request and of the stream\<close>

lemma toasts_updateChat [simp]: "toasts (updateChat r chatId msgs w) = toasts w"
  by (simp add: updateChat_def setChats_def saveChats_def setActiveChat_def Let_def
      split: option.split)

lemma console_updateChat [simp]: "console (updateChat r chatId msgs w) = console w"
  by (simp add: updateChat_def setChats_def saveChats_def setActiveChat_def Let_def
      split: option.split)

lemma fetched_updateChat [simp]: "fetched (updateChat r chatId msgs w) = fetched w"
  by (simp add: updateChat_def setChats_def saveChats_def setActiveChat_def Let_def
      split: option.split)

text \<open>
  A request that fails (a rejected \<open>fetch\<close>, or a status outside 200 to 299) is reported
  by one toast and one line of the log. Nothing else of the world changes but the
  loading flag: the chats, the active chat and the stored entry stay, no runner is
  created and no request is sent again.
\<close>

lemma failed_request_reported:
  assumes "outcome = Rejected err \<or> outcome = Responded status \<and> \<not> ok status"
  shows "snd (sendMessage_settled c outcome w) = None \<and>
         toasts (fst (sendMessage_settled c outcome w)) =
           toasts w @ [js ''Something went wrong. Please try again.''] \<and>
         length (console (fst (sendMessage_settled c outcome w))) = Suc (length (console w)) \<and>
         chats (react (fst (sendMessage_settled c outcome w))) = chats (react w) \<and>
         activeChat (react (fst (sendMessage_settled c outcome w))) = activeChat (react w) \<and>
         loading (react (fst (sendMessage_settled c outcome w))) = False \<and>
         localStorage (fst (sendMessage_settled c outcome w)) = localStorage w \<and>
         fetched (fst (sendMessage_settled c outcome w)) = fetched w"
  using assms
  by (auto simp: sendMessage_settled_def handleError_def setLoading_def)

lemma toasts_createNewChat [simp]: "toasts (createNewChat r now1 now2 w) = toasts w"
  by (simp add: createNewChat_def setChats_def saveChats_def setActiveChat_def Let_def)

lemma console_createNewChat [simp]: "console (createNewChat r now1 now2 w) = console w"
  by (simp add: createNewChat_def setChats_def saveChats_def setActiveChat_def Let_def)

lemma fetched_createNewChat [simp]: "fetched (createNewChat r now1 now2 w) = fetched w"
  by (simp add: createNewChat_def setChats_def saveChats_def setActiveChat_def Let_def)

lemma http_500_run:
  "toasts (world (run http_500_events start)) = [js ''Something went wrong. Please try again.''] \<and>
   chats (react (world (run http_500_events start))) = [hello_sent] \<and>
   activeChat (react (world (run http_500_events start))) = Some hello_sent \<and>
   length (fetched (world (run http_500_events start))) = 1 \<and>
   runners (run http_500_events start) = []"
  by (simp add: http_500_events_def hello_events_def run_def start_def mount_def emptyWorld_def
      sendMessage_def trim_Hello initialState_def Let_def hello_chat_def title_New_Chat_1
      updateChat_def updatedChat_def or_else_def slice_Hello sendMessage_settled_def ok_def
      hello_sent_def createNewChat_def
      setChats_def saveChats_def setActiveChat_def setUserInput_def setLoading_def setError_def
      fetch_def handleError_def)

text \<open>
  C8. An error of the stream after the request has succeeded reaches no code of the
  page: after the delta \<open>H\<close> and then an error there is no toast and no line in the log.
  What had streamed stays, and no second request is sent.
\<close>

theorem stream_error_unreported:
  "toasts (world (run stream_error_events start)) = [] \<and>
   console (world (run stream_error_events start)) = [] \<and>
   map (map content \<circ> messages) (chats (react (world (run stream_error_events start)))) =
     [[js ''Hello'', js ''H'']] \<and>
   length (fetched (world (run stream_error_events start))) = 1"
  by (simp add: stream_error_events_def hello_events_def run_def start_def mount_def emptyWorld_def
      sendMessage_def trim_Hello initialState_def Let_def hello_chat_def title_New_Chat_1
      updateChat_def updatedChat_def or_else_def slice_Hello sendMessage_settled_def ok_def
      createNewChat_def on_content_def
      setChats_def saveChats_def setActiveChat_def setUserInput_def setLoading_def setError_def
      fetch_def handleError_def)

section \<open>The credential of the route\<close>

text \<open>
  C9. Without \<open>TOGETHER_API_KEY\<close> in the environment the module of the route fails when
  it is initialised, with the error of the client's constructor if that one throws and
  with \<open>Missing together env var\<close> otherwise; so the route has no \<open>POST\<close> and answers
  no request.
\<close>

theorem missing_key_fails_at_init:
  assumes "process_env (js ''TOGETHER_API_KEY'') = None"
  shows "module_init Together_new process_env =
           Inl (case Together_new process_env of
                  Inl e \<Rightarrow> e | Inr together \<Rightarrow> Error (js ''Missing together env var'')) \<and>
         route Together_new stream process_env requests =
           Inl (case Together_new process_env of
                  Inl e \<Rightarrow> e | Inr together \<Rightarrow> Error (js ''Missing together env var''))"
  using assms by (simp add: route_def module_init_def split: sum.split)

theorem missing_key_fails_at_init_witness:
  "route (\<lambda>process_env. Inr ()) (\<lambda>together params. Inr ()) Map.empty
     [Inr \<lparr>prompt = js ''Hello'', model = js ''mistralai/Mixtral-8x7B-Instruct-v0.1''\<rparr>] =
   Inl (Error (js ''Missing together env var''))"
  using missing_key_fails_at_init [of Map.empty "\<lambda>process_env. Inr ()" "\<lambda>together params. Inr ()"
      "[Inr \<lparr>prompt = js ''Hello'', model = js ''mistralai/Mixtral-8x7B-Instruct-v0.1''\<rparr>]"]
  by simp

section \<open>Reloading what was stored\<close>

lemma toJSON_idem [simp]: "toJSON (toJSON v) = toJSON v"
  by (cases v rule: toJSON.cases) simp_all

lemma stringify_message_idem [simp]: "stringify_message (stringify_message m) = stringify_message m"
  by (simp add: stringify_message_def option.map_comp comp_def)

lemma new_Date_toJSON:
  assumes "validChat c"
  shows "new_Date (toJSON (createdAt c)) = createdAt c"
  using assms
  by (auto simp: validChat_def Date_parse_toISOString split: TimeField.splits option.splits)

lemma load_stringify_chat:
  assumes "validChat c"
  shows "(stringify_chat c)\<lparr>createdAt := new_Date (createdAt (stringify_chat c))\<rparr> = reloaded c"
  using new_Date_toJSON [OF assms] by (simp add: stringify_chat_def reloaded_def)

lemma stringify_reloaded [simp]: "stringify_chat (reloaded c) = stringify_chat c"
  by (simp add: stringify_chat_def reloaded_def)

lemma load_stringify:
  assumes "list_all validChat cs"
  shows "map (\<lambda>chat. chat\<lparr>createdAt := new_Date (createdAt chat)\<rparr>) (JSON_stringify cs) =
         map reloaded cs"
  using assms by (induction cs) (simp_all add: JSON_stringify_def load_stringify_chat)

lemma chats_reload:
  assumes "list_all validChat cs"
  shows "chats (react (reload cs)) = map reloaded cs"
  using load_stringify [OF assms]
  by (simp add: reload_def mount_def saveChats_def emptyWorld_def Let_def)

lemma activeChat_reload:
  assumes "list_all validChat cs"
  shows "activeChat (react (reload cs)) = (if cs = [] then None else Some (reloaded (last cs)))"
  using load_stringify [OF assms]
  by (simp add: reload_def mount_def saveChats_def emptyWorld_def Let_def initialState_def
      JSON_stringify_def last_map)

lemma titled_reloaded [simp]: "titled (reloaded c) = titled c"
  by (cases "messages c") (simp_all add: titled_def reloaded_def stringify_message_def)

text \<open>Chats that were titled when stored are titled when loaded.\<close>

lemma titled_reload:
  assumes "list_all validChat cs" and "list_all titled cs"
  shows "titled_state (react (reload cs))"
proof -
  from assms(2) have "list_all titled (map reloaded cs)"
    by (simp add: list_all_iff)
  moreover from assms(2) have "cs \<noteq> [] \<longrightarrow> titled (reloaded (last cs))"
    by (simp add: list_all_iff)
  ultimately show ?thesis
    by (simp add: titled_state_def chats_reload [OF assms(1)] activeChat_reload [OF assms(1)])
qed

text \<open>
  C2. For chats with valid creation dates, a page mounted on what was stored has the
  same chats in the same order, each with its id, its title, its creation date (written
  as ISO text and parsed back to the same time value) and the roles and contents of its
  messages. The timestamp of a message comes back as JSON has it: the ISO text of a
  date is not parsed back. The active chat is the last chat, none for no chats, and the
  entry in storage is the one that was stored.
\<close>

theorem reload_restores:
  assumes "list_all validChat cs"
  shows "chats (react (reload cs)) = map reloaded cs \<and>
         activeChat (react (reload cs)) = (if cs = [] then None else Some (reloaded (last cs))) \<and>
         localStorage (reload cs) = localStorage (saveChats cs emptyWorld) \<and>
         map chat_id (chats (react (reload cs))) = map chat_id cs \<and>
         map title (chats (react (reload cs))) = map title cs \<and>
         map createdAt (chats (react (reload cs))) = map createdAt cs \<and>
         map (map role \<circ> messages) (chats (react (reload cs))) = map (map role \<circ> messages) cs \<and>
         map (map content \<circ> messages) (chats (react (reload cs))) =
           map (map content \<circ> messages) cs \<and>
         map (map timestamp \<circ> messages) (chats (react (reload cs))) =
           map (map (map_option toJSON \<circ> timestamp) \<circ> messages) cs"
proof -
  note list = chats_reload [OF assms] and act = activeChat_reload [OF assms]
  have "JSON_stringify (map reloaded cs) = JSON_stringify cs"
    by (simp add: JSON_stringify_def)
  then have store: "localStorage (reload cs) = localStorage (saveChats cs emptyWorld)"
    using load_stringify [OF assms]
    by (simp add: reload_def mount_def saveChats_def emptyWorld_def Let_def setChats_def
        setActiveChat_def)
  show ?thesis
    unfolding list act store
    by (simp add: reloaded_def stringify_message_def comp_def)
qed

lemma valid_examples: "validChat chatA" "validChat hello_sent"
  by (simp_all add: validChat_def chatA_def hello_sent_def hello_chat_def)

theorem reload_restores_witness:
  "validChat chatA \<and> validChat hello_sent \<and>
   map chat_id (chats (react (reload [chatA, hello_sent]))) =
     [js ''1700000000000'', Number_toString 1700000000000] \<and>
   map title (chats (react (reload [chatA, hello_sent]))) = [js ''New Chat 1'', js ''Hello''] \<and>
   map createdAt (chats (react (reload [chatA, hello_sent]))) =
     [DateObj (Some 1700000000000), DateObj (Some 1700000000001)] \<and>
   map (map content \<circ> messages) (chats (react (reload [chatA, hello_sent]))) =
     [[], [js ''Hello'']] \<and>
   map_option chat_id (activeChat (react (reload [chatA, hello_sent]))) =
     Some (Number_toString 1700000000000)"
proof -
  have valid: "list_all validChat [chatA, hello_sent]"
    using valid_examples by simp
  from reload_restores [OF valid] valid_examples show ?thesis
    by (simp add: chatA_def hello_sent_def hello_chat_def reloaded_def stringify_message_def)
qed

lemma zpad_2: "zpad 2 n = [digit (n div 10 mod 10), digit (n mod 10)]"
  by (simp add: numeral_2_eq_2)

lemma zpad_3: "zpad 3 n = [digit (n div 10 div 10 mod 10), digit (n div 10 mod 10), digit (n mod 10)]"
  by (simp add: numeral_3_eq_3)

lemma zpad_4:
  "zpad 4 n = [digit (n div 10 div 10 div 10 mod 10), digit (n div 10 div 10 mod 10),
               digit (n div 10 mod 10), digit (n mod 10)]"
proof -
  have "zpad 4 n = zpad (Suc 3) n"
    by simp
  also have "\<dots> = zpad 3 (n div 10) @ [digit (n mod 10)]"
    by (simp only: zpad.simps)
  also have "\<dots> = [digit (n div 10 div 10 div 10 mod 10), digit (n div 10 div 10 mod 10),
               digit (n div 10 mod 10), digit (n mod 10)]"
    by (simp only: zpad_3 append.simps)
  finally show ?thesis .
qed

lemma year_2023: "YearFromTime 1700000005000 = 2023"
  by (simp add: YearFromTime_def YearFromDay_def Day_def msPerDay_def year_from.simps
      DayFromYear_def)

lemma iso_probe: "toISOString 1700000005000 = js ''2023-11-14T22:13:25.000Z''"
  by (simp add: toISOString_def isoYear_def year_2023 Day_def msPerDay_def
      DayFromYear_def MonthFromTime_def monthOfDay_def monthStart_def
      DayWithinYear_def InLeapYear_def DateFromTime_def HourFromTime_def MinFromTime_def
      SecFromTime_def msFromTime_def TimeWithinDay_def js_def digit_def zpad_2 zpad_3 zpad_4)


text \<open>
  The claim as written fails twice. The user's message of the chat \<open>hello_sent\<close> was sent
  at 1700000005000, and after storing and loading its timestamp is the text of that
  instant, so the chats are not the ones stored. And with the first of two chats active,
  the active chat after loading is the second.
\<close>

theorem reload_keeps_text_counterexample:
  "map (map timestamp \<circ> messages) [hello_sent] = [[Some (DateObj (Some 1700000005000))]] \<and>
   map (map timestamp \<circ> messages) (chats (react (reload [hello_sent]))) =
     [[Some (JsonText (js ''2023-11-14T22:13:25.000Z''))]] \<and>
   chats (react (reload [hello_sent])) \<noteq> [hello_sent] \<and>
   chats (react world_first) = [chatA, chatB] \<and>
   activeChat (react world_first) = Some chatA \<and>
   activeChat (react (reload (chats (react world_first)))) = Some chatB \<and>
   chatA \<noteq> chatB"
proof -
  have "list_all validChat [hello_sent]"
    using valid_examples by simp
  from chats_reload [OF this]
  have stamps: "map (map timestamp \<circ> messages) (chats (react (reload [hello_sent]))) =
      [[Some (JsonText (js ''2023-11-14T22:13:25.000Z''))]]"
    and changed: "chats (react (reload [hello_sent])) \<noteq> [hello_sent]"
    by (simp_all add: reloaded_def hello_sent_def hello_chat_def stringify_message_def iso_probe)
  have first: "chats (react world_first) = [chatA, chatB]"
    "activeChat (react world_first) = Some chatA"
    by (simp_all add: world_first_def selectChat_def world_hello_def world_two_def
        initialState_def)
  have "list_all validChat [chatA, chatB]"
    by (simp add: validChat_def chatA_def chatB_def)
  from activeChat_reload [OF this]
  have last: "activeChat (react (reload (chats (react world_first)))) = Some chatB"
    by (simp add: first reloaded_def chatB_def)
  from ids_differ have "chatA \<noteq> chatB"
    by auto
  with stamps changed first last show ?thesis
    by (simp add: hello_sent_def)
qed

section \<open>The active chat is a chat of the list\<close>

text \<open>
  From the page as mounted, whatever the events: the active chat is in the list, so the
  send and the stream find the chat they update.
\<close>

lemma listed_iff: "listed st \<longleftrightarrow> (\<forall>a. activeChat st = Some a \<longrightarrow> a \<in> set (chats st))"
  by (simp add: listed_def split: option.split)

lemma find_listed:
  assumes "a \<in> set cs"
  obtains ch where "find (\<lambda>chat. chat_id chat = chat_id a) cs = Some ch" and "ch \<in> set cs"
proof (cases "find (\<lambda>chat. chat_id chat = chat_id a) cs")
  case None
  with assms show ?thesis by (auto simp: find_None_iff)
next
  case (Some ch)
  then have "ch \<in> set cs"
    by (auto simp: find_Some_iff)
  with Some that show ?thesis by blast
qed

lemma listed_updateChat:
  assumes "a \<in> set (chats r)"
  shows "listed (react (updateChat r (chat_id a) msgs w))"
proof -
  from assms obtain ch
    where ch: "find (\<lambda>chat. chat_id chat = chat_id a) (chats r) = Some ch" "ch \<in> set (chats r)"
    by (rule find_listed)
  then have "chat_id ch = chat_id a"
    by (auto simp: find_Some_iff)
  with ch(2) have "updatedChat ch msgs \<in> set (chats (react (updateChat r (chat_id a) msgs w)))"
    by (auto simp: chats_updateChat)
  with ch(1) show ?thesis
    by (simp add: listed_iff activeChat_updateChat)
qed

lemma listed_createNewChat: "listed (react (createNewChat r now1 now2 w))"
  by (simp add: listed_iff createNewChat_def Let_def)

lemma listed_selectChat:
  assumes "listed (react w)"
  shows "listed (react (selectChat (react w) i w))"
  using assms by (simp add: listed_iff selectChat_def)

lemma listed_sendMessage:
  assumes "listed (react w)"
  shows "listed (react (fst (sendMessage (react w) now1 now2 w)))"
proof (cases "trim (userInput (react w)) = []")
  case True
  with assms show ?thesis by (simp add: sendMessage_def)
next
  case False
  show ?thesis
  proof (cases "activeChat (react w)")
    case None
    with False show ?thesis
      by (simp add: sendMessage_def listed_createNewChat)
  next
    case (Some a)
    with assms have "a \<in> set (chats (react w))"
      by (simp add: listed_iff)
    from listed_updateChat [OF this] False Some show ?thesis
      by (simp add: sendMessage_def Let_def listed_iff)
  qed
qed

lemma listed_closure_sendMessage:
  assumes "listed r" and "sendMessage r now1 now2 w = (w', Some c)"
  shows "listed_closure c"
  using assms
  by (auto simp: sendMessage_def Let_def listed_iff listed_closure_def split: if_splits option.splits)

lemma listed_sendMessage_settled:
  "listed (react (fst (sendMessage_settled c outcome w))) = listed (react w)"
  by (simp add: sendMessage_settled_def listed_iff split: FetchOutcome.splits)

lemma listed_emit:
  assumes "listed_closure (closure rn)" and "listed (react w)"
  shows "listed (react (snd (emit (ev, now) (rn, w))))"
  using assms
  by (cases ev) (simp_all add: on_content_def Let_def listed_updateChat listed_closure_def)

lemma listed_system_step:
  assumes "listed_system s"
  shows "listed_system (step e s)"
proof (cases e)
  case (Typed input)
  with assms show ?thesis
    by (simp add: listed_system_def listed_iff)
next
  case (NewChatClicked now1 now2)
  with assms show ?thesis
    by (simp add: listed_system_def listed_createNewChat)
next
  case (ChatClicked i)
  with assms show ?thesis
    by (simp add: listed_system_def listed_selectChat)
next
  case (Submitted now1 now2)
  obtain w c where sent: "sendMessage (react (world s)) now1 now2 (world s) = (w, c)"
    by (cases "sendMessage (react (world s)) now1 now2 (world s)")
  from assms have st: "listed (react (world s))"
    by (simp add: listed_system_def)
  from listed_sendMessage [OF st, of now1 now2] sent have w: "listed (react w)"
    by simp
  show ?thesis
  proof (cases c)
    case None
    with Submitted sent w assms show ?thesis
      by (simp add: listed_system_def)
  next
    case (Some cl)
    with sent st have "listed_closure cl"
      by (simp add: listed_closure_sendMessage)
    with Some Submitted sent w assms show ?thesis
      by (simp add: listed_system_def)
  qed
next
  case (Settled i outcome)
  show ?thesis
  proof (cases "i < length (awaiting s)")
    case False
    with Settled assms show ?thesis by simp
  next
    case True
    obtain w rn where settled: "sendMessage_settled (awaiting s ! i) outcome (world s) = (w, rn)"
      by (cases "sendMessage_settled (awaiting s ! i) outcome (world s)")
    from listed_sendMessage_settled [of "awaiting s ! i" outcome "world s"] settled assms
    have w: "listed (react w)"
      by (simp add: listed_system_def)
    from assms have aw: "list_all listed_closure (awaiting s)"
      by (simp add: listed_system_def)
    then have rest: "list_all listed_closure (take i (awaiting s) @ drop (Suc i) (awaiting s))"
      by (auto simp: list_all_iff dest: in_set_takeD in_set_dropD)
    from aw True have ith: "listed_closure (awaiting s ! i)"
      by (simp add: list_all_length)
    show ?thesis
    proof (cases rn)
      case None
      with Settled True settled w rest assms show ?thesis
        by (simp add: listed_system_def)
    next
      case (Some r)
      with settled have "closure r = awaiting s ! i"
        by (simp add: runner_sendMessage_settled)
      with Some Settled True settled w rest ith assms show ?thesis
        by (simp add: listed_system_def)
    qed
  qed
next
  case (Emitted i ev now)
  show ?thesis
  proof (cases "i < length (runners s)")
    case False
    with Emitted assms show ?thesis by simp
  next
    case True
    obtain rn w where emitted: "emit (ev, now) (runners s ! i, world s) = (rn, w)"
      by (cases "emit (ev, now) (runners s ! i, world s)")
    from assms have rs: "list_all (\<lambda>rn. listed_closure (closure rn)) (runners s)"
      by (simp add: listed_system_def)
    with True have ith: "listed_closure (closure (runners s ! i))"
      by (simp add: list_all_length)
    from assms have st: "listed (react (world s))"
      by (simp add: listed_system_def)
    from listed_emit [OF ith st, of ev now] emitted have w: "listed (react w)"
      by simp
    from closure_emit [of ev now "runners s ! i" "world s"] emitted
    have "closure rn = closure (runners s ! i)"
      by simp
    with ith have "listed_closure (closure rn)"
      by simp
    with rs have "list_all (\<lambda>rn. listed_closure (closure rn)) ((runners s)[i := rn])"
      by (auto simp: list_all_iff dest!: set_update_subset_insert [THEN subsetD])
    with Emitted True emitted w assms show ?thesis
      by (simp add: listed_system_def)
  qed
qed

lemma listed_system_run:
  assumes "listed_system s"
  shows "listed_system (run es s)"
  using assms unfolding run_def
  by (induction es arbitrary: s) (simp_all add: listed_system_step)

lemma listed_system_start: "listed_system start"
  by (simp add: listed_system_def start_def react_mount_empty listed_iff initialState_def)

lemma active_chat_is_listed:
  assumes "activeChat (react (world (run es start))) = Some a"
  shows "a \<in> set (chats (react (world (run es start))))"
  using listed_system_run [OF listed_system_start, of es] assms
  by (simp add: listed_system_def listed_iff)

end
